theory Spec2Isabelle
  imports Complex_Main
begin

section \<open>Bias-aware temperature control: a shallow embedding\<close>

text \<open>
  The development follows \<^verbatim>\<open>adaptive_fair_thermal_comfort.ipynb\<close>. Python floats are
  modelled as mathematical reals (no rounding error, no NaN), Python integers as
  \<^typ>\<open>int\<close>. Every random draw of the source (\<^verbatim>\<open>np.random.normal\<close>,
  \<^verbatim>\<open>np.random.uniform\<close>, \<^verbatim>\<open>random.random\<close>, \<^verbatim>\<open>random.randint\<close>) is an explicit
  argument of the function that draws it, so that every statement holds for all draws.
  Exceptions are values of the type \<open>error\<close>; a function that may raise returns
  \<open>error + 'a\<close>.
\<close>

subsection \<open>Python and numpy primitives\<close>

datatype error = IndexError | ValueError | ZeroDivisionError

text \<open>\<^verbatim>\<open>np.clip(a, a_min, a_max)\<close> is \<^verbatim>\<open>minimum(a_max, maximum(a, a_min))\<close>.\<close>

definition np_clip :: "'a::linorder \<Rightarrow> 'a \<Rightarrow> 'a \<Rightarrow> 'a" where
  "np_clip a a_min a_max = min a_max (max a a_min)"

text \<open>\<^verbatim>\<open>int(x)\<close> on a float truncates toward zero.\<close>

definition py_int :: "real \<Rightarrow> int" where
  "py_int x = (if 0 \<le> x then \<lfloor>x\<rfloor> else \<lceil>x\<rceil>)"

text \<open>\<^verbatim>\<open>np.round\<close> rounds to the nearest integer, halves to the even neighbour.\<close>

definition np_round :: "real \<Rightarrow> int" where
  "np_round x =
     (let f = \<lfloor>x\<rfloor>; d = x - of_int f
      in if d < 1 / 2 then f else if 1 / 2 < d then f + 1
         else if even f then f else f + 1)"

text \<open>
  Indexing a Python list or one axis of a numpy array of length \<open>n\<close>: a negative index
  counts from the end, anything outside \<open>-n .. n - 1\<close> raises \<^verbatim>\<open>IndexError\<close>;
  \<open>norm_index\<close> is the position that a valid index denotes.
\<close>

definition norm_index :: "nat \<Rightarrow> int \<Rightarrow> nat" where
  "norm_index n i = nat (if i < 0 then int n + i else i)"

definition py_index :: "'a list \<Rightarrow> int \<Rightarrow> error + 'a" where
  "py_index xs i =
     (if - int (length xs) \<le> i \<and> i < int (length xs)
      then Inr (xs ! norm_index (length xs) i)
      else Inl IndexError)"

subsection \<open>The thermal comfort model\<close>

record preferences =
  optimal :: real
  comfortable_range :: "real \<times> real"
  sensitivity :: real

definition male_temp_preferences :: preferences where
  "male_temp_preferences =
     \<lparr>optimal = 22.0, comfortable_range = (20.0, 24.0), sensitivity = 0.8\<rparr>"

definition female_temp_preferences :: preferences where
  "female_temp_preferences =
     \<lparr>optimal = 24.0, comfortable_range = (22.0, 26.0), sensitivity = 1.2\<rparr>"

text \<open>The selection \<^verbatim>\<open>male_temp_preferences if gender == 'male' else female_temp_preferences\<close>.\<close>

definition prefs_of :: "string \<Rightarrow> preferences" where
  "prefs_of gender =
     (if gender = ''male'' then male_temp_preferences else female_temp_preferences)"

text \<open>The Gaussian draw of the sensation vote is the argument \<open>noise\<close>.\<close>

definition calculate_thermal_sensation_vote :: "real \<Rightarrow> string \<Rightarrow> real \<Rightarrow> int" where
  "calculate_thermal_sensation_vote temperature gender noise =
     (let prefs = prefs_of gender;
          temp_diff = temperature - optimal prefs;
          base_tsv = temp_diff * sensitivity prefs * 0.4;
          tsv = base_tsv + noise
      in np_clip (np_round tsv) (- 3) 3)"

definition calculate_thermal_comfort_score :: "real \<Rightarrow> string \<Rightarrow> real" where
  "calculate_thermal_comfort_score temperature gender =
     (let prefs = prefs_of gender;
          temp_diff = \<bar>temperature - optimal prefs\<bar>;
          comfort =
            (if temp_diff \<le> 1.0 then 1.0 - (temp_diff * 0.2)
             else if temp_diff \<le> 2.0 then 0.8 - ((temp_diff - 1.0) * 0.4)
             else if temp_diff \<le> 4.0 then 0.4 - ((temp_diff - 2.0) * 0.15)
             else 0.1);
          comfort' = (if gender = ''female'' \<and> 0 < temp_diff then comfort * 0.9 else comfort)
      in max 0.0 (min 1.0 comfort'))"

definition calculate_thermal_preference :: "real \<Rightarrow> string \<Rightarrow> int" where
  "calculate_thermal_preference temperature gender =
     (let prefs = prefs_of gender;
          temp_diff = temperature - optimal prefs
      in if 1.0 < temp_diff then - 1
         else if temp_diff < - 1.0 then 1
         else 0)"

text \<open>
  The comfort score as the specification words it: a piecewise-linear function of the
  deviation \<open>dev\<close> from the group's optimum, a factor 0.9 for the secondary group when
  \<open>dev > 0\<close>, clamped to the unit interval.
\<close>

definition comfort_piecewise :: "real \<Rightarrow> real" where
  "comfort_piecewise dev =
     (if dev \<le> 1 then 1 - 0.2 * dev
      else if dev \<le> 2 then 0.8 - 0.4 * (dev - 1)
      else if dev \<le> 4 then 0.4 - 0.15 * (dev - 2)
      else 0.1)"

definition comfortScore_spec :: "real \<Rightarrow> string \<Rightarrow> real" where
  "comfortScore_spec t g =
     (let dev = \<bar>t - optimal (prefs_of g)\<bar>;
          v = (if g = ''female'' \<and> dev > 0 then 0.9 * comfort_piecewise dev
               else comfort_piecewise dev)
      in np_clip v 0 1)"

subsection \<open>The environment\<close>

record environment =
  male_ratio :: real
  female_ratio :: real
  min_temp :: real
  max_temp :: real
  current_temp :: real
  action_space :: "real list"

text \<open>The constructor; its defaults are \<^verbatim>\<open>male_ratio=0.5, min_temp=16.0, max_temp=32.0\<close>.\<close>

definition ASHRAEEnvironment :: "real \<Rightarrow> real \<Rightarrow> real \<Rightarrow> environment" where
  "ASHRAEEnvironment male_ratio' min_temp' max_temp' =
     \<lparr>male_ratio = male_ratio', female_ratio = 1 - male_ratio',
      min_temp = min_temp', max_temp = max_temp', current_temp = 22.0,
      action_space = [- 1.0, - 0.5, 0.0, 0.5, 1.0]\<rparr>"

definition env_default_min_temp :: real where "env_default_min_temp = 16.0"
definition env_default_max_temp :: real where "env_default_max_temp = 32.0"

text \<open>\<open>reset\<close>: the argument \<open>drawn\<close> is the value of \<^verbatim>\<open>np.random.uniform(18.0, 28.0)\<close>.\<close>

definition reset :: "environment \<Rightarrow> real \<Rightarrow> environment \<times> real" where
  "reset self drawn = (self\<lparr>current_temp := drawn\<rparr>, drawn)"

record info =
  info_male_tsv :: int
  info_female_tsv :: int
  info_male_preference :: int
  info_female_preference :: int
  info_temperature :: real

text \<open>
  \<open>step\<close>: \<open>noise\<close> is the draw \<^verbatim>\<open>np.random.normal(0, 0.1)\<close>, \<open>noise_m\<close> and \<open>noise_f\<close> are
  the draws of the two sensation votes, in the order of the calls. The list lookup is
  the only statement that can raise, and it comes before any assignment.
\<close>

definition step ::
  "environment \<Rightarrow> int \<Rightarrow> real \<Rightarrow> real \<Rightarrow> real \<Rightarrow>
   error + (environment \<times> real \<times> real \<times> real \<times> real \<times> info)" where
  "step self action_idx noise noise_m noise_f =
     (case py_index (action_space self) action_idx of
        Inl e \<Rightarrow> Inl e
      | Inr action \<Rightarrow>
          (let temp = np_clip (current_temp self + action + noise) (min_temp self) (max_temp self);
               self' = self\<lparr>current_temp := temp\<rparr>;
               male_comfort = calculate_thermal_comfort_score temp ''male'';
               female_comfort = calculate_thermal_comfort_score temp ''female'';
               male_tsv = calculate_thermal_sensation_vote temp ''male'' noise_m;
               female_tsv = calculate_thermal_sensation_vote temp ''female'' noise_f;
               male_preference = calculate_thermal_preference temp ''male'';
               female_preference = calculate_thermal_preference temp ''female'';
               blended_reward = male_ratio self * male_comfort + female_ratio self * female_comfort;
               blended_reward' =
                 (if temp < 18.0 \<or> 28.0 < temp then blended_reward - 0.3 else blended_reward);
               info = \<lparr>info_male_tsv = male_tsv, info_female_tsv = female_tsv,
                       info_male_preference = male_preference,
                       info_female_preference = female_preference,
                       info_temperature = temp\<rparr>
           in Inr (self', temp, blended_reward', male_comfort, female_comfort, info)))"

subsection \<open>The Q-learning agent and its variants\<close>

text \<open>
  The class of an agent object, with the attribute that the subclass adds:
  \<^verbatim>\<open>fairness_weight\<close> for the fairness-aware agent, \<^verbatim>\<open>trained_gender\<close> for the biased one.
\<close>

datatype agent_class =
  QLearningAgent | HybridAdaptiveAgent | FairnessAwareAgent real | BiasedAgent string

record agent =
  state_bins :: nat
  action_space_size :: nat
  alpha :: real
  gamma :: real
  epsilon :: real
  epsilon_decay :: real
  min_epsilon :: real
  q_table :: "real list list"
  total_updates :: int
  agent_class :: agent_class

text \<open>
  The constructor \<^verbatim>\<open>__init__\<close>; \<^verbatim>\<open>np.zeros((state_bins, action_space_size))\<close> is a list of
  \<open>state_bins\<close> rows of \<open>action_space_size\<close> zeros (numpy refuses negative dimensions, so
  both are naturals).
\<close>

definition new_agent ::
  "agent_class \<Rightarrow> nat \<Rightarrow> nat \<Rightarrow> real \<Rightarrow> real \<Rightarrow> real \<Rightarrow> real \<Rightarrow> real \<Rightarrow> agent" where
  "new_agent cls state_bins' action_space_size' alpha' gamma' epsilon' epsilon_decay' min_epsilon' =
     \<lparr>state_bins = state_bins', action_space_size = action_space_size',
      alpha = alpha', gamma = gamma', epsilon = epsilon',
      epsilon_decay = epsilon_decay', min_epsilon = min_epsilon',
      q_table = replicate state_bins' (replicate action_space_size' 0),
      total_updates = 0, agent_class = cls\<rparr>"

text \<open>The constructor's defaults.\<close>

definition default_agent :: "agent_class \<Rightarrow> agent" where
  "default_agent cls = new_agent cls 100 5 0.1 0.9 0.3 0.995 0.01"

text \<open>
  \<open>discretize_state\<close>. With \<open>max_temp = min_temp\<close> the quotient is \<^verbatim>\<open>0.0 / 0.0\<close> on numpy
  floats, a NaN, and \<^verbatim>\<open>int\<close> of it raises \<^verbatim>\<open>ValueError\<close>.
\<close>

definition discretize_state :: "agent \<Rightarrow> real \<Rightarrow> real \<Rightarrow> real \<Rightarrow> error + int" where
  "discretize_state self temperature min_temp' max_temp' =
     (let temperature' = np_clip temperature min_temp' max_temp'
      in if max_temp' = min_temp' then Inl ValueError
         else
           (let state = py_int ((temperature' - min_temp') / (max_temp' - min_temp')
                                * of_int (int (state_bins self) - 1))
            in Inr (np_clip state 0 (int (state_bins self) - 1))))"

text \<open>The defaults of the two optional parameters of \<open>discretize_state\<close>.\<close>

definition discretize_default_min_temp :: real where "discretize_default_min_temp = 16.0"
definition discretize_default_max_temp :: real where "discretize_default_max_temp = 32.0"

text \<open>\<^verbatim>\<open>np.max\<close> and \<^verbatim>\<open>np.argmax\<close> (first index of the maximum) raise on an empty row.\<close>

fun first_index :: "'a \<Rightarrow> 'a list \<Rightarrow> nat" where
  "first_index v [] = 0"
| "first_index v (x # xs) = (if x = v then 0 else Suc (first_index v xs))"

definition np_max :: "real list \<Rightarrow> error + real" where
  "np_max xs = (if xs = [] then Inl ValueError else Inr (Max (set xs)))"

definition np_argmax :: "real list \<Rightarrow> error + int" where
  "np_argmax xs =
     (if xs = [] then Inl ValueError else Inr (int (first_index (Max (set xs)) xs)))"

text \<open>
  \<open>choose_action\<close>: \<open>u\<close> is the draw \<^verbatim>\<open>random.random()\<close>, a number in \<open>[0, 1)\<close>, and \<open>k\<close> the
  draw \<^verbatim>\<open>random.randint(0, action_space_size - 1)\<close>, which raises on an empty range.
\<close>

definition choose_action :: "agent \<Rightarrow> int \<Rightarrow> real \<Rightarrow> int \<Rightarrow> error + int" where
  "choose_action self state u k =
     (if u < epsilon self
      then (if action_space_size self = 0 then Inl ValueError else Inr k)
      else (case py_index (q_table self) state of
              Inl e \<Rightarrow> Inl e
            | Inr row \<Rightarrow> np_argmax row))"

text \<open>Reading and writing \<^verbatim>\<open>q_table[state, action]\<close>.\<close>

definition np_index2 :: "real list list \<Rightarrow> int \<Rightarrow> int \<Rightarrow> error + real" where
  "np_index2 q i j = (case py_index q i of Inl e \<Rightarrow> Inl e | Inr row \<Rightarrow> py_index row j)"

definition np_set2 :: "real list list \<Rightarrow> int \<Rightarrow> int \<Rightarrow> real \<Rightarrow> real list list" where
  "np_set2 q i j v =
     (let i' = norm_index (length q) i; row = q ! i'
      in q[i' := row[norm_index (length row) j := v]])"

text \<open>
  \<open>learn\<close>. The two reads of the table can raise; both come before the first assignment,
  so a failed call leaves the agent as it was.
\<close>

definition learn :: "agent \<Rightarrow> int \<Rightarrow> int \<Rightarrow> real \<Rightarrow> int \<Rightarrow> error + agent" where
  "learn self state action reward next_state =
     (case np_index2 (q_table self) state action of
        Inl e \<Rightarrow> Inl e
      | Inr old_value \<Rightarrow>
          (case py_index (q_table self) next_state of
             Inl e \<Rightarrow> Inl e
           | Inr row \<Rightarrow>
               (case np_max row of
                  Inl e \<Rightarrow> Inl e
                | Inr next_max \<Rightarrow>
                    (let new_value =
                           old_value + alpha self * (reward + gamma self * next_max - old_value);
                         self1 = self\<lparr>q_table := np_set2 (q_table self) state action new_value\<rparr>;
                         self2 = self1\<lparr>total_updates := total_updates self1 + 1\<rparr>
                     in Inr (if total_updates self2 mod 500 = 0
                             then self2\<lparr>epsilon :=
                                    max (min_epsilon self2) (epsilon self2 * epsilon_decay self2)\<rparr>
                             else self2)))))"

text \<open>The two methods of the fairness-aware agent; \<open>fairness_weight\<close> is its attribute.\<close>

definition calculate_fairness_reward :: "real \<Rightarrow> real \<Rightarrow> real \<Rightarrow> real" where
  "calculate_fairness_reward fairness_weight male_comfort female_comfort =
     (let overall_comfort = (male_comfort + female_comfort) / 2;
          fairness_penalty = \<bar>male_comfort - female_comfort\<bar>
      in overall_comfort - fairness_weight * fairness_penalty)"

definition learn_with_fairness ::
  "agent \<Rightarrow> real \<Rightarrow> int \<Rightarrow> int \<Rightarrow> real \<Rightarrow> real \<Rightarrow> int \<Rightarrow> error + agent" where
  "learn_with_fairness self fairness_weight state action male_comfort female_comfort next_state =
     (let reward = calculate_fairness_reward fairness_weight male_comfort female_comfort
      in learn self state action reward next_state)"


subsection \<open>The training loop\<close>

text \<open>
  The draws of one loop iteration, in the order the source makes them:
  \<^verbatim>\<open>random.random()\<close> and \<^verbatim>\<open>random.randint\<close> in \<open>choose_action\<close>, then the three
  Gaussian draws of \<open>step\<close>.
\<close>

record step_draws =
  draw_u :: real
  draw_k :: int
  draw_noise :: real
  draw_noise_m :: real
  draw_noise_f :: real

text \<open>The dispatch on the agent's class in the body of the training loop.\<close>

definition agent_specific_learning ::
  "agent \<Rightarrow> int \<Rightarrow> int \<Rightarrow> real \<Rightarrow> real \<Rightarrow> real \<Rightarrow> int \<Rightarrow> error + agent" where
  "agent_specific_learning agent state action reward male_comfort female_comfort next_state =
     (case agent_class agent of
        FairnessAwareAgent fairness_weight \<Rightarrow>
          learn_with_fairness agent fairness_weight state action male_comfort female_comfort
            next_state
      | BiasedAgent trained_gender \<Rightarrow>
          (if trained_gender = ''male''
           then learn agent state action male_comfort next_state
           else learn agent state action female_comfort next_state)
      | _ \<Rightarrow> learn agent state action reward next_state)"

record episode_sums =
  episode_reward :: real
  episode_male_comfort :: real
  episode_female_comfort :: real
  episode_temps :: "real list"

text \<open>One iteration of the inner loop of \<open>train_agent\<close>.\<close>

definition train_step ::
  "agent \<Rightarrow> environment \<Rightarrow> int \<Rightarrow> episode_sums \<Rightarrow> step_draws \<Rightarrow>
   error + (agent \<times> environment \<times> int \<times> episode_sums)" where
  "train_step agent env state acc d =
     (case choose_action agent state (draw_u d) (draw_k d) of
        Inl e \<Rightarrow> Inl e
      | Inr action \<Rightarrow>
          (case step env action (draw_noise d) (draw_noise_m d) (draw_noise_f d) of
             Inl e \<Rightarrow> Inl e
           | Inr (env', next_temp, reward, male_comfort, female_comfort, step_info) \<Rightarrow>
               (case discretize_state agent next_temp
                       discretize_default_min_temp discretize_default_max_temp of
                  Inl e \<Rightarrow> Inl e
                | Inr next_state \<Rightarrow>
                    (case agent_specific_learning agent state action reward
                            male_comfort female_comfort next_state of
                       Inl e \<Rightarrow> Inl e
                     | Inr agent' \<Rightarrow>
                         Inr (agent', env', next_state,
                              acc\<lparr>episode_reward := episode_reward acc + reward,
                                   episode_male_comfort := episode_male_comfort acc + male_comfort,
                                   episode_female_comfort :=
                                     episode_female_comfort acc + female_comfort,
                                   episode_temps := episode_temps acc @ [next_temp]\<rparr>)))))"

text \<open>The inner loop: one iteration for each element of the list of draws.\<close>

fun train_steps ::
  "agent \<Rightarrow> environment \<Rightarrow> int \<Rightarrow> episode_sums \<Rightarrow> step_draws list \<Rightarrow>
   error + (agent \<times> environment \<times> int \<times> episode_sums)" where
  "train_steps agent env state acc [] = Inr (agent, env, state, acc)"
| "train_steps agent env state acc (d # ds) =
     (case train_step agent env state acc d of
        Inl e \<Rightarrow> Inl e
      | Inr (agent', env', state', acc') \<Rightarrow> train_steps agent' env' state' acc' ds)"

record metrics =
  train_rewards :: "real list"
  train_male_comforts :: "real list"
  train_female_comforts :: "real list"
  train_fairness_gaps :: "real list"
  train_temperatures :: "real list"

definition np_mean :: "real list \<Rightarrow> real" where
  "np_mean xs = sum_list xs / real (length xs)"

text \<open>
  One iteration of the outer loop. An episode is the reset draw and the draws of its
  steps; \<open>steps_per_episode\<close> is their number. With no step the sums are still the integer
  0 and the first division raises.
\<close>

definition train_episode ::
  "agent \<Rightarrow> environment \<Rightarrow> metrics \<Rightarrow> real \<times> step_draws list \<Rightarrow>
   error + (agent \<times> environment \<times> metrics)" where
  "train_episode agent env metrics ep =
     (let env0 = fst (reset env (fst ep));
          state_temp = snd (reset env (fst ep));
          steps_per_episode = length (snd ep)
      in case discretize_state agent state_temp
                discretize_default_min_temp discretize_default_max_temp of
           Inl e \<Rightarrow> Inl e
         | Inr state \<Rightarrow>
             (case train_steps agent env0 state
                     \<lparr>episode_reward = 0, episode_male_comfort = 0,
                      episode_female_comfort = 0, episode_temps = []\<rparr> (snd ep) of
                Inl e \<Rightarrow> Inl e
              | Inr (agent', env', state', acc) \<Rightarrow>
                  if steps_per_episode = 0 then Inl ZeroDivisionError
                  else Inr (agent', env',
                    metrics\<lparr>train_rewards := train_rewards metrics
                               @ [episode_reward acc / real steps_per_episode],
                            train_male_comforts := train_male_comforts metrics
                               @ [episode_male_comfort acc / real steps_per_episode],
                            train_female_comforts := train_female_comforts metrics
                               @ [episode_female_comfort acc / real steps_per_episode],
                            train_fairness_gaps := train_fairness_gaps metrics
                               @ [\<bar>episode_male_comfort acc - episode_female_comfort acc\<bar>
                                  / real steps_per_episode],
                            train_temperatures := train_temperatures metrics
                               @ [np_mean (episode_temps acc)]\<rparr>)))"

fun train_episodes ::
  "agent \<Rightarrow> environment \<Rightarrow> metrics \<Rightarrow> (real \<times> step_draws list) list \<Rightarrow>
   error + (agent \<times> environment \<times> metrics)" where
  "train_episodes agent env metrics [] = Inr (agent, env, metrics)"
| "train_episodes agent env metrics (ep # eps) =
     (case train_episode agent env metrics ep of
        Inl e \<Rightarrow> Inl e
      | Inr (agent', env', metrics') \<Rightarrow> train_episodes agent' env' metrics' eps)"

definition train_agent ::
  "agent \<Rightarrow> environment \<Rightarrow> (real \<times> step_draws list) list \<Rightarrow>
   error + (agent \<times> environment \<times> metrics)" where
  "train_agent agent env episodes =
     train_episodes agent env
       \<lparr>train_rewards = [], train_male_comforts = [], train_female_comforts = [],
        train_fairness_gaps = [], train_temperatures = []\<rparr> episodes"

subsection \<open>The evaluation harness\<close>

record all_metrics =
  temperatures :: "real list"
  male_comforts :: "real list"
  female_comforts :: "real list"
  male_tsvs :: "int list"
  female_tsvs :: "int list"
  male_preferences :: "int list"
  female_preferences :: "int list"

text \<open>One iteration of the inner loop of \<open>evaluate_agent_comprehensive\<close>.\<close>

definition eval_step ::
  "agent \<Rightarrow> environment \<Rightarrow> int \<Rightarrow> all_metrics \<Rightarrow> step_draws \<Rightarrow>
   error + (environment \<times> int \<times> all_metrics)" where
  "eval_step agent env state m d =
     (case choose_action agent state (draw_u d) (draw_k d) of
        Inl e \<Rightarrow> Inl e
      | Inr action \<Rightarrow>
          (case step env action (draw_noise d) (draw_noise_m d) (draw_noise_f d) of
             Inl e \<Rightarrow> Inl e
           | Inr (env', next_temp, reward, male_comfort, female_comfort, step_info) \<Rightarrow>
               (case discretize_state agent next_temp
                       discretize_default_min_temp discretize_default_max_temp of
                  Inl e \<Rightarrow> Inl e
                | Inr next_state \<Rightarrow>
                    Inr (env', next_state,
                         m\<lparr>temperatures := temperatures m @ [next_temp],
                           male_comforts := male_comforts m @ [male_comfort],
                           female_comforts := female_comforts m @ [female_comfort],
                           male_tsvs := male_tsvs m @ [info_male_tsv step_info],
                           female_tsvs := female_tsvs m @ [info_female_tsv step_info],
                           male_preferences := male_preferences m @ [info_male_preference step_info],
                           female_preferences :=
                             female_preferences m @ [info_female_preference step_info]\<rparr>))))"

fun eval_steps ::
  "agent \<Rightarrow> environment \<Rightarrow> int \<Rightarrow> all_metrics \<Rightarrow> step_draws list \<Rightarrow>
   error + (environment \<times> int \<times> all_metrics)" where
  "eval_steps agent env state m [] = Inr (env, state, m)"
| "eval_steps agent env state m (d # ds) =
     (case eval_step agent env state m d of
        Inl e \<Rightarrow> Inl e
      | Inr (env', state', m') \<Rightarrow> eval_steps agent env' state' m' ds)"

fun eval_episodes ::
  "agent \<Rightarrow> environment \<Rightarrow> all_metrics \<Rightarrow> (real \<times> step_draws list) list \<Rightarrow>
   error + (environment \<times> all_metrics)" where
  "eval_episodes agent env m [] = Inr (env, m)"
| "eval_episodes agent env m (ep # eps) =
     (case discretize_state agent (snd (reset env (fst ep)))
             discretize_default_min_temp discretize_default_max_temp of
        Inl e \<Rightarrow> Inl e
      | Inr state \<Rightarrow>
          (case eval_steps agent (fst (reset env (fst ep))) state m (snd ep) of
             Inl e \<Rightarrow> Inl e
           | Inr (env', state', m') \<Rightarrow> eval_episodes agent env' m' eps))"

text \<open>The assignment \<^verbatim>\<open>agent.epsilon = 0.0\<close> that opens the evaluation.\<close>

definition pure_exploitation :: "agent \<Rightarrow> agent" where
  "pure_exploitation agent = agent\<lparr>epsilon := 0.0\<rparr>"

text \<open>
  \<open>evaluate_agent_comprehensive\<close> up to the line that restores epsilon. The result is the
  agent object as the call leaves it, and either the exception that ended the call or the
  recorded observations (\<^verbatim>\<open>detailed_metrics\<close>). The statistics derived from the
  observations after the loops do not touch the agent and are not modelled. When a
  statement of the loops raises, the exception leaves the function: the source has no
  handler and no \<^verbatim>\<open>finally\<close>, so the restoring assignment is not executed.
\<close>

definition evaluate_agent_comprehensive ::
  "agent \<Rightarrow> real \<Rightarrow> (real \<times> step_draws list) list \<Rightarrow> agent \<times> (error + all_metrics)" where
  "evaluate_agent_comprehensive agent male_ratio' episodes =
     (let env = ASHRAEEnvironment male_ratio' env_default_min_temp env_default_max_temp;
          original_epsilon = epsilon agent;
          agent0 = pure_exploitation agent
      in case eval_episodes agent0 env
                \<lparr>temperatures = [], male_comforts = [], female_comforts = [],
                 male_tsvs = [], female_tsvs = [], male_preferences = [],
                 female_preferences = []\<rparr> episodes of
           Inl e \<Rightarrow> (agent0, Inl e)
         | Inr (env', m) \<Rightarrow> (agent0\<lparr>epsilon := original_epsilon\<rparr>, Inr m))"

subsection \<open>The relative fairness improvement of the reports\<close>

text \<open>
  The gaps are numpy floats, and numpy's float division does not raise on a zero
  divisor: it yields an infinity or a NaN (the warning is filtered out by
  \<^verbatim>\<open>warnings.filterwarnings('ignore')\<close>). The type \<open>np_float\<close> adds these values to the
  reals.
\<close>

datatype np_float = Finite real | PosInf | NegInf | NaN

definition np_truediv :: "real \<Rightarrow> real \<Rightarrow> np_float" where
  "np_truediv a b =
     (if b \<noteq> 0 then Finite (a / b)
      else if a = 0 then NaN else if 0 < a then PosInf else NegInf)"

definition np_mul :: "np_float \<Rightarrow> real \<Rightarrow> np_float" where
  "np_mul x c =
     (case x of
        Finite a \<Rightarrow> Finite (a * c)
      | NaN \<Rightarrow> NaN
      | PosInf \<Rightarrow> (if c = 0 then NaN else if 0 < c then PosInf else NegInf)
      | NegInf \<Rightarrow> (if c = 0 then NaN else if 0 < c then NegInf else PosInf))"

text \<open>
  The expression \<^verbatim>\<open>(biased_gap - fairness_gap) / biased_gap * 100\<close> of
  \<open>create_comprehensive_visualizations\<close> and \<open>print_comprehensive_analysis\<close>.
\<close>

definition improvement :: "real \<Rightarrow> real \<Rightarrow> np_float" where
  "improvement biased_gap fairness_gap =
     np_mul (np_truediv (biased_gap - fairness_gap) biased_gap) 100"

text \<open>The guarded computation the specification asks for: a zero baseline is reported as undefined.\<close>

definition improvement_guarded_spec :: "real \<Rightarrow> real \<Rightarrow> np_float" where
  "improvement_guarded_spec biased_gap fairness_gap =
     (if biased_gap = 0 then NaN
      else Finite ((biased_gap - fairness_gap) / biased_gap * 100))"

subsection \<open>The reward of each variant, as the specification words it\<close>

text \<open>
  The biased variant is fed the comfort of its own group, the fairness-aware variant the
  mean comfort minus the weighted gap, every other variant the blended reward.
\<close>

definition reward_fed_spec :: "agent_class \<Rightarrow> real \<Rightarrow> real \<Rightarrow> real \<Rightarrow> real" where
  "reward_fed_spec cls blended comfortA comfortB =
     (case cls of
        BiasedAgent g \<Rightarrow> (if g = ''male'' then comfortA else comfortB)
      | FairnessAwareAgent w \<Rightarrow> (comfortA + comfortB) / 2 - w * \<bar>comfortA - comfortB\<bar>
      | _ \<Rightarrow> blended)"

subsection \<open>Sequences of updates\<close>

text \<open>
  A sequence of calls \<^verbatim>\<open>agent.learn(state, action, reward, next_state)\<close> on one agent, as
  the training loop makes them; the first exception ends the sequence.
\<close>

fun learn_all :: "agent \<Rightarrow> (int \<times> int \<times> real \<times> int) list \<Rightarrow> error + agent" where
  "learn_all agent [] = Inr agent"
| "learn_all agent ((state, action, reward, next_state) # calls) =
     (case learn agent state action reward next_state of
        Inl e \<Rightarrow> Inl e
      | Inr agent' \<Rightarrow> learn_all agent' calls)"

section \<open>Theorems\<close>

subsection \<open>The comfort score\<close>

lemma clamp_unit: "max 0.0 (min 1.0 (x::real)) = np_clip x 0 1"
  unfolding np_clip_def by (simp add: max_def min_def)

lemma piecewise_code:
  "(if d \<le> 1.0 then 1.0 - (d * 0.2)
    else if d \<le> 2.0 then 0.8 - ((d - 1.0) * 0.4)
    else if d \<le> 4.0 then 0.4 - ((d - 2.0) * 0.15)
    else 0.1) = comfort_piecewise (d::real)"
  unfolding comfort_piecewise_def by (simp add: mult.commute)

lemma comfort_score_refines: "calculate_thermal_comfort_score t g = comfortScore_spec t g"
  unfolding calculate_thermal_comfort_score_def comfortScore_spec_def Let_def
    piecewise_code clamp_unit
  by (simp only: mult.commute)

lemma optimal_values:
  "optimal (prefs_of ''male'') = 22 \<and> optimal (prefs_of ''female'') = 24"
  by (simp add: prefs_of_def male_temp_preferences_def female_temp_preferences_def)

lemma comfort_male_at_22: "calculate_thermal_comfort_score 22 ''male'' = 1"
  by (simp add: calculate_thermal_comfort_score_def prefs_of_def male_temp_preferences_def)

lemma comfort_female_at_22: "calculate_thermal_comfort_score 22 ''female'' = 0.36"
  by (simp add: calculate_thermal_comfort_score_def prefs_of_def female_temp_preferences_def)

text \<open>
  C6. For every temperature and every group label the comfort score computed by the code
  is the piecewise-linear function of the deviation from the group's optimum stated in
  the specification, times 0.9 for the group \<open>female\<close> when the deviation is positive,
  clamped to \<open>[0, 1]\<close>. The optima are 22 (male) and 24 (female); at 22 degrees the male
  score is 1 and the female score is 0.36.
\<close>

theorem comfort_score_piecewise:
  "calculate_thermal_comfort_score t g = comfortScore_spec t g
   \<and> optimal (prefs_of ''male'') = 22 \<and> optimal (prefs_of ''female'') = 24
   \<and> calculate_thermal_comfort_score 22 ''male'' = 1
   \<and> calculate_thermal_comfort_score 22 ''female'' = 0.36"
  using comfort_score_refines optimal_values comfort_male_at_22 comfort_female_at_22
  by blast


subsection \<open>The environment step\<close>



lemma py_index_nonneg: "0 \<le> i \<Longrightarrow> i < int (length xs) \<Longrightarrow> py_index xs i = Inr (xs ! nat i)"
  unfolding py_index_def norm_index_def by simp






lemma np_clip_bounds: "lo \<le> hi \<Longrightarrow> lo \<le> np_clip x lo hi \<and> np_clip x lo hi \<le> hi"
  unfolding np_clip_def by auto

lemma step_success:
  assumes "py_index (action_space env) i = Inr action"
  shows "step env i noise nm nf =
     (let T = np_clip (current_temp env + action + noise) (min_temp env) (max_temp env);
          cA = calculate_thermal_comfort_score T ''male'';
          cB = calculate_thermal_comfort_score T ''female''
      in Inr (env\<lparr>current_temp := T\<rparr>, T,
              male_ratio env * cA + female_ratio env * cB - (if T < 18 \<or> 28 < T then 0.3 else 0),
              cA, cB,
              \<lparr>info_male_tsv = calculate_thermal_sensation_vote T ''male'' nm,
               info_female_tsv = calculate_thermal_sensation_vote T ''female'' nf,
               info_male_preference = calculate_thermal_preference T ''male'',
               info_female_preference = calculate_thermal_preference T ''female'',
               info_temperature = T\<rparr>))"
  unfolding step_def Let_def using assms by simp





subsection \<open>The training step\<close>

lemma agent_specific_learning_eq:
  "agent_specific_learning a s act reward mc fc s' =
     learn a s act (reward_fed_spec (agent_class a) reward mc fc) s'"
  unfolding agent_specific_learning_def reward_fed_spec_def learn_with_fairness_def
    calculate_fairness_reward_def Let_def
  by (simp split: agent_class.splits)

lemma train_step_InrD:
  assumes "train_step agent env state acc d = Inr (agent', env', next_state, acc')"
  shows "\<exists>action next_temp reward mc fc inf.
           choose_action agent state (draw_u d) (draw_k d) = Inr action
         \<and> step env action (draw_noise d) (draw_noise_m d) (draw_noise_f d)
             = Inr (env', next_temp, reward, mc, fc, inf)
         \<and> discretize_state agent next_temp discretize_default_min_temp
              discretize_default_max_temp = Inr next_state
         \<and> agent_specific_learning agent state action reward mc fc next_state = Inr agent'"
  using assms unfolding train_step_def
  by (auto split: sum.splits prod.splits)






subsection \<open>State indices\<close>

lemma discretize_defaults:
  "discretize_default_min_temp = 16 \<and> discretize_default_max_temp = 32"
  by (simp add: discretize_default_min_temp_def discretize_default_max_temp_def)

lemma step_current_temp:
  "step env i n nm nf = Inr (env', T, r, cA, cB, si) \<Longrightarrow> current_temp env' = T"
  unfolding step_def Let_def by (auto split: sum.splits)


lemma train_step_next_state:
  assumes "train_step agent env state acc d = Inr (agent', env', next_state, acc')"
  shows "discretize_state agent (current_temp env') 16 32 = Inr next_state
       \<and> (\<exists>action r. learn agent state action r next_state = Inr agent')"
proof -
  from train_step_InrD[OF assms] obtain action next_temp r cA cB si where
    s: "step env action (draw_noise d) (draw_noise_m d) (draw_noise_f d)
             = Inr (env', next_temp, r, cA, cB, si)"
    and ds: "discretize_state agent next_temp discretize_default_min_temp
              discretize_default_max_temp = Inr next_state"
    and l: "agent_specific_learning agent state action r cA cB next_state = Inr agent'"
    by blast
  from l have "\<exists>action r. learn agent state action r next_state = Inr agent'"
    unfolding agent_specific_learning_eq by blast
  then show ?thesis
    using ds step_current_temp[OF s] discretize_defaults by simp
qed


lemma train_episode_initial_state:
  assumes "train_episode agent env metrics ep = Inr (agent', env', metrics')"
  shows "\<exists>state state' acc'. discretize_state agent (fst ep) 16 32 = Inr state
       \<and> train_steps agent (env\<lparr>current_temp := fst ep\<rparr>) state
            \<lparr>episode_reward = 0, episode_male_comfort = 0, episode_female_comfort = 0,
             episode_temps = []\<rparr> (snd ep) = Inr (agent', env', state', acc')"
  using assms unfolding train_episode_def Let_def reset_def
  by (auto simp: discretize_defaults split: sum.splits prod.splits if_splits)











subsection \<open>Discretisation\<close>

lemma mapped_range:
  fixes t lo hi :: real and n :: int
  assumes "lo < hi" and "0 \<le> n"
  shows "0 \<le> (np_clip t lo hi - lo) / (hi - lo) * of_int n"
    and "(np_clip t lo hi - lo) / (hi - lo) * of_int n \<le> of_int n"
proof -
  have c: "lo \<le> np_clip t lo hi" "np_clip t lo hi \<le> hi"
    using np_clip_bounds[of lo hi t] assms(1) by simp_all
  have x0: "0 \<le> (np_clip t lo hi - lo) / (hi - lo)"
    using c assms(1) by simp
  have x1: "(np_clip t lo hi - lo) / (hi - lo) \<le> 1"
    using c assms(1) by simp
  have n0: "0 \<le> (of_int n :: real)" using assms(2) by simp
  show "0 \<le> (np_clip t lo hi - lo) / (hi - lo) * of_int n"
    using x0 n0 by (rule mult_nonneg_nonneg)
  show "(np_clip t lo hi - lo) / (hi - lo) * of_int n \<le> of_int n"
    using mult_right_mono[OF x1 n0] by simp
qed

lemma discretize_state_floor:
  assumes "lo < hi" and "1 \<le> state_bins agent"
  shows "discretize_state agent t lo hi =
           Inr \<lfloor>(np_clip t lo hi - lo) / (hi - lo) * of_int (int (state_bins agent) - 1)\<rfloor>
       \<and> 0 \<le> \<lfloor>(np_clip t lo hi - lo) / (hi - lo) * of_int (int (state_bins agent) - 1)\<rfloor>
       \<and> \<lfloor>(np_clip t lo hi - lo) / (hi - lo) * of_int (int (state_bins agent) - 1)\<rfloor>
           \<le> int (state_bins agent) - 1"
proof -
  let ?n = "int (state_bins agent) - 1"
  let ?y = "(np_clip t lo hi - lo) / (hi - lo) * of_int ?n"
  have n: "0 \<le> ?n" using assms(2) by simp
  have y0: "0 \<le> ?y"
    by (rule mapped_range(1)[OF assms(1) n])
  have y1: "?y \<le> of_int ?n"
    by (rule mapped_range(2)[OF assms(1) n])
  have f0: "0 \<le> \<lfloor>?y\<rfloor>" using y0 by (simp only: zero_le_floor)
  have "\<lfloor>?y\<rfloor> \<le> \<lfloor>(of_int ?n :: real)\<rfloor>" using y1 by (rule floor_mono)
  then have f1: "\<lfloor>?y\<rfloor> \<le> ?n" by (simp only: floor_of_int)
  have "py_int ?y = \<lfloor>?y\<rfloor>" using y0 by (simp add: py_int_def)
  moreover have "np_clip \<lfloor>?y\<rfloor> 0 ?n = \<lfloor>?y\<rfloor>"
    using f0 f1 by (simp add: np_clip_def)
  ultimately have "discretize_state agent t lo hi = Inr \<lfloor>?y\<rfloor>"
    using assms(1) unfolding discretize_state_def Let_def by simp
  then show ?thesis using f0 f1 by simp
qed





subsection \<open>The relative improvement\<close>

text \<open>
  C5, amended. The relative improvement is the plain quotient: the number
  \<open>(biased_gap - gap) / biased_gap * 100\<close> for a baseline other than zero; for a zero
  baseline, NaN only when the other gap is zero as well, and otherwise an infinity
  (negative for a positive gap).
\<close>

theorem improvement_unguarded:
  "improvement b g =
     (if b \<noteq> 0 then Finite ((b - g) / b * 100)
      else if g = 0 then NaN else if g < 0 then PosInf else NegInf)"
  by (simp add: improvement_def np_truediv_def np_mul_def)

text \<open>
  C5 as stated fails for a zero baseline and the gap 0.1: the guarded computation reports
  NaN, the code computes minus infinity.
\<close>

theorem improvement_zero_baseline_counterexample:
  "improvement_guarded_spec 0 0.1 = NaN \<and> improvement 0 0.1 = NegInf"
  by (simp add: improvement_guarded_spec_def improvement_def np_truediv_def np_mul_def)

subsection \<open>Evaluation and epsilon\<close>

lemma restore_epsilon: "(pure_exploitation agent)\<lparr>epsilon := epsilon agent\<rparr> = agent"
  by (simp add: pure_exploitation_def)

lemma evaluate_cases:
  "(\<exists>m. evaluate_agent_comprehensive agent r episodes = (agent, Inr m))
   \<or> (\<exists>e. evaluate_agent_comprehensive agent r episodes = (pure_exploitation agent, Inl e))"
  unfolding evaluate_agent_comprehensive_def Let_def restore_epsilon
  by (simp split: sum.splits prod.splits)

lemma eval_example_normal:
  "evaluate_agent_comprehensive (new_agent HybridAdaptiveAgent 2 5 0.1 0.9 0.3 0.995 0.01) 0.5
     [(20, [\<lparr>draw_u = 0.5, draw_k = 0, draw_noise = 0, draw_noise_m = 0, draw_noise_f = 0\<rparr>])]
   = (new_agent HybridAdaptiveAgent 2 5 0.1 0.9 0.3 0.995 0.01,
      Inr \<lparr>temperatures = [19], male_comforts = [0.25], female_comforts = [0.09],
           male_tsvs = [- 1], female_tsvs = [- 2], male_preferences = [1],
           female_preferences = [1]\<rparr>)"
  by code_simp

lemma eval_example_raises:
  "evaluate_agent_comprehensive
     ((new_agent QLearningAgent 1 6 0.1 0.9 0.3 0.995 0.01)
        \<lparr>q_table := [[0, 0, 0, 0, 0, 0.1]], total_updates := 1\<rparr>) 0.5
     [(20, [\<lparr>draw_u = 0.5, draw_k = 0, draw_noise = 0, draw_noise_m = 0, draw_noise_f = 0\<rparr>])]
   = ((new_agent QLearningAgent 1 6 0.1 0.9 0.3 0.995 0.01)
        \<lparr>q_table := [[0, 0, 0, 0, 0, 0.1]], total_updates := 1, epsilon := 0\<rparr>,
      Inl IndexError)"
  by code_simp

lemma learn_example_six_actions:
  "learn (new_agent QLearningAgent 1 6 0.1 0.9 0.3 0.995 0.01) 0 5 1 0
   = Inr ((new_agent QLearningAgent 1 6 0.1 0.9 0.3 0.995 0.01)
        \<lparr>q_table := [[0, 0, 0, 0, 0, 0.1]], total_updates := 1\<rparr>)"
  by code_simp

lemma discretize_state_in_range:
  assumes "1 \<le> state_bins agent"
  shows "\<exists>s. discretize_state agent T discretize_default_min_temp discretize_default_max_temp
               = Inr s \<and> 0 \<le> s \<and> s < int (state_bins agent)"
proof -
  have "(16::real) < 32" by simp
  from discretize_state_floor[OF this assms, of T] show ?thesis
    using discretize_defaults by auto
qed

lemma first_index_less: "v \<in> set xs \<Longrightarrow> first_index v xs < length xs"
  by (induction xs) auto

lemma np_argmax_in_range:
  assumes "row \<noteq> []"
  shows "\<exists>k. np_argmax row = Inr k \<and> 0 \<le> k \<and> k < int (length row)"
proof -
  have "Max (set row) \<in> set row" using assms by (intro Max_in) simp_all
  then have "first_index (Max (set row)) row < length row" by (rule first_index_less)
  then show ?thesis unfolding np_argmax_def using assms by simp
qed

lemma greedy_action_in_range:
  assumes "epsilon agent = 0" and "0 \<le> u"
    and "0 \<le> s" and "s < int (length (q_table agent))"
    and "\<forall>row\<in>set (q_table agent). row \<noteq> [] \<and> length row \<le> 5"
  shows "\<exists>k. choose_action agent s u k0 = Inr k \<and> 0 \<le> k \<and> k < 5"
proof -
  let ?row = "q_table agent ! nat s"
  have idx: "py_index (q_table agent) s = Inr ?row"
    using assms(3,4) by (rule py_index_nonneg)
  have "?row \<in> set (q_table agent)" using assms(3,4) by (intro nth_mem) simp
  with assms(5) have ne: "?row \<noteq> []" and le: "length ?row \<le> 5" by blast+
  from np_argmax_in_range[OF ne] obtain k where
    "np_argmax ?row = Inr k" "0 \<le> k" "k < int (length ?row)" by blast
  then show ?thesis
    unfolding choose_action_def using assms(1,2) idx le by simp
qed

lemma step_in_range:
  assumes "action_space env = [- 1.0, - 0.5, 0.0, 0.5, 1.0]" and "0 \<le> k" and "k < 5"
  shows "\<exists>env' T r cA cB si. step env k n nm nf = Inr (env', T, r, cA, cB, si)
           \<and> action_space env' = action_space env"
proof -
  have "py_index (action_space env) k = Inr (action_space env ! nat k)"
    using assms by (intro py_index_nonneg) simp_all
  from step_success[OF this, of n nm nf] show ?thesis
    unfolding Let_def by simp
qed

lemma eval_step_returns:
  assumes "epsilon agent = 0" and "0 \<le> draw_u d"
    and "1 \<le> state_bins agent" and "length (q_table agent) = state_bins agent"
    and "\<forall>row\<in>set (q_table agent). row \<noteq> [] \<and> length row \<le> 5"
    and "action_space env = [- 1.0, - 0.5, 0.0, 0.5, 1.0]"
    and "0 \<le> s" and "s < int (state_bins agent)"
  shows "\<exists>env' s' m'. eval_step agent env s m d = Inr (env', s', m')
           \<and> action_space env' = action_space env \<and> 0 \<le> s' \<and> s' < int (state_bins agent)"
proof -
  from greedy_action_in_range[OF assms(1,2,7) _ assms(5), of "draw_k d"] assms(4,8)
  obtain k where c: "choose_action agent s (draw_u d) (draw_k d) = Inr k"
    and k: "0 \<le> k" "k < 5" by auto
  from step_in_range[OF assms(6) k, of "draw_noise d" "draw_noise_m d" "draw_noise_f d"]
  obtain env' T r cA cB si where
    st: "step env k (draw_noise d) (draw_noise_m d) (draw_noise_f d)
           = Inr (env', T, r, cA, cB, si)"
    and sp: "action_space env' = action_space env" by blast
  from discretize_state_in_range[OF assms(3), of T] obtain s' where
    ds: "discretize_state agent T discretize_default_min_temp discretize_default_max_temp
           = Inr s'" and s': "0 \<le> s'" "s' < int (state_bins agent)" by blast
  show ?thesis
    unfolding eval_step_def using c st ds sp s' by simp
qed

lemma eval_steps_return:
  assumes "epsilon agent = 0" and "\<forall>d\<in>set ds. 0 \<le> draw_u d"
    and "1 \<le> state_bins agent" and "length (q_table agent) = state_bins agent"
    and "\<forall>row\<in>set (q_table agent). row \<noteq> [] \<and> length row \<le> 5"
    and "action_space env = [- 1.0, - 0.5, 0.0, 0.5, 1.0]"
    and "0 \<le> s" and "s < int (state_bins agent)"
  shows "\<exists>env' s' m'. eval_steps agent env s m ds = Inr (env', s', m')
           \<and> action_space env' = [- 1.0, - 0.5, 0.0, 0.5, 1.0]"
  using assms(2,6,7,8)
proof (induction ds arbitrary: env s m)
  case Nil
  then show ?case by simp
next
  case (Cons d ds)
  have u: "0 \<le> draw_u d" using Cons.prems(1) by simp
  from eval_step_returns[OF assms(1) u assms(3,4,5) Cons.prems(2,3,4), of m]
  obtain env1 s1 m1 where
    st: "eval_step agent env s m d = Inr (env1, s1, m1)"
    and sp: "action_space env1 = action_space env"
    and s1: "0 \<le> s1" "s1 < int (state_bins agent)" by blast
  have "\<exists>env' s' m'. eval_steps agent env1 s1 m1 ds = Inr (env', s', m')
           \<and> action_space env' = [- 1.0, - 0.5, 0.0, 0.5, 1.0]"
    using Cons.prems(1,2) sp s1 by (intro Cons.IH) simp_all
  then show ?case using st by simp
qed

lemma eval_episodes_return:
  assumes "epsilon agent = 0" and "\<forall>ep\<in>set episodes. \<forall>d\<in>set (snd ep). 0 \<le> draw_u d"
    and "1 \<le> state_bins agent" and "length (q_table agent) = state_bins agent"
    and "\<forall>row\<in>set (q_table agent). row \<noteq> [] \<and> length row \<le> 5"
    and "action_space env = [- 1.0, - 0.5, 0.0, 0.5, 1.0]"
  shows "\<exists>env' m'. eval_episodes agent env m episodes = Inr (env', m')"
  using assms(2,6)
proof (induction episodes arbitrary: env m)
  case Nil
  then show ?case by simp
next
  case (Cons ep episodes)
  have u: "\<forall>d\<in>set (snd ep). 0 \<le> draw_u d" using Cons.prems(1) by simp
  from discretize_state_in_range[OF assms(3), of "snd (reset env (fst ep))"] obtain s where
    ds: "discretize_state agent (snd (reset env (fst ep))) discretize_default_min_temp
           discretize_default_max_temp = Inr s"
    and s: "0 \<le> s" "s < int (state_bins agent)" by blast
  have sp: "action_space (fst (reset env (fst ep))) = [- 1.0, - 0.5, 0.0, 0.5, 1.0]"
    using Cons.prems(2) by (simp add: reset_def)
  from eval_steps_return[OF assms(1) u assms(3,4,5) sp s, of m]
  obtain env1 s1 m1 where
    st: "eval_steps agent (fst (reset env (fst ep))) s m (snd ep) = Inr (env1, s1, m1)"
    and sp1: "action_space env1 = [- 1.0, - 0.5, 0.0, 0.5, 1.0]" by blast
  have "\<exists>env' m'. eval_episodes agent env1 m1 episodes = Inr (env', m')"
    using Cons.prems(1) sp1 by (intro Cons.IH) simp_all
  then show ?case using ds st by simp
qed

lemma evaluate_returns:
  assumes "\<forall>ep\<in>set episodes. \<forall>d\<in>set (snd ep). 0 \<le> draw_u d"
    and "1 \<le> state_bins agent" and "length (q_table agent) = state_bins agent"
    and "\<forall>row\<in>set (q_table agent). row \<noteq> [] \<and> length row \<le> 5"
  shows "\<exists>m. evaluate_agent_comprehensive agent r episodes = (agent, Inr m)"
proof -
  let ?A = "pure_exploitation agent"
  have e: "epsilon ?A = 0" and b: "state_bins ?A = state_bins agent"
    and q: "q_table ?A = q_table agent"
    by (simp_all add: pure_exploitation_def)
  have sp: "action_space (ASHRAEEnvironment r env_default_min_temp env_default_max_temp)
      = [- 1.0, - 0.5, 0.0, 0.5, 1.0]"
    by (simp add: ASHRAEEnvironment_def)
  from eval_episodes_return[of ?A episodes, OF e assms(1) _ _ _ sp] assms(2,3,4)
  obtain env' m' where "eval_episodes ?A
      (ASHRAEEnvironment r env_default_min_temp env_default_max_temp)
      \<lparr>temperatures = [], male_comforts = [], female_comforts = [], male_tsvs = [],
       female_tsvs = [], male_preferences = [], female_preferences = []\<rparr> episodes
      = Inr (env', m')"
    unfolding b q by blast
  then show ?thesis
    unfolding evaluate_agent_comprehensive_def Let_def restore_epsilon by simp
qed

text \<open>
  C1, amended. When \<open>evaluate_agent_comprehensive\<close> returns normally, the agent, and so
  its epsilon, is as before the call. When a statement of the evaluation loops raises,
  the call ends with that exception and the agent is left in pure exploitation, its
  epsilon 0.0 and nothing else changed: the restoring assignment is not reached. The call
  returns normally whenever the table has \<open>state_bins \<ge> 1\<close> rows of one to five entries
  (and the draws of \<^verbatim>\<open>random.random()\<close> are not negative).
\<close>

theorem evaluate_restores_epsilon_on_return:
  "(snd (evaluate_agent_comprehensive agent r episodes) = Inr m \<longrightarrow>
      fst (evaluate_agent_comprehensive agent r episodes) = agent
      \<and> epsilon (fst (evaluate_agent_comprehensive agent r episodes)) = epsilon agent)
   \<and> (snd (evaluate_agent_comprehensive agent r episodes) = Inl e \<longrightarrow>
      fst (evaluate_agent_comprehensive agent r episodes) = agent\<lparr>epsilon := 0\<rparr>
      \<and> epsilon (fst (evaluate_agent_comprehensive agent r episodes)) = 0)
   \<and> ((\<forall>ep\<in>set episodes. \<forall>d\<in>set (snd ep). 0 \<le> draw_u d)
       \<and> 1 \<le> state_bins agent \<and> length (q_table agent) = state_bins agent
       \<and> (\<forall>row\<in>set (q_table agent). row \<noteq> [] \<and> length row \<le> 5) \<longrightarrow>
      (\<exists>m'. evaluate_agent_comprehensive agent r episodes = (agent, Inr m')))"
proof -
  have returns: "(\<forall>ep\<in>set episodes. \<forall>d\<in>set (snd ep). 0 \<le> draw_u d)
       \<and> 1 \<le> state_bins agent \<and> length (q_table agent) = state_bins agent
       \<and> (\<forall>row\<in>set (q_table agent). row \<noteq> [] \<and> length row \<le> 5) \<longrightarrow>
      (\<exists>m'. evaluate_agent_comprehensive agent r episodes = (agent, Inr m'))"
    using evaluate_returns[of episodes agent r] by blast
  have ends: "(snd (evaluate_agent_comprehensive agent r episodes) = Inr m \<longrightarrow>
      fst (evaluate_agent_comprehensive agent r episodes) = agent
      \<and> epsilon (fst (evaluate_agent_comprehensive agent r episodes)) = epsilon agent)
   \<and> (snd (evaluate_agent_comprehensive agent r episodes) = Inl e \<longrightarrow>
      fst (evaluate_agent_comprehensive agent r episodes) = agent\<lparr>epsilon := 0\<rparr>
      \<and> epsilon (fst (evaluate_agent_comprehensive agent r episodes)) = 0)"
    using evaluate_cases[of agent r episodes]
    by (auto simp: pure_exploitation_def)
  show ?thesis
    by (intro conjI) (rule ends[THEN conjunct1] ends[THEN conjunct2] returns)+
qed

theorem evaluate_restores_epsilon_on_return_witness:
  "epsilon (fst (evaluate_agent_comprehensive
       (new_agent HybridAdaptiveAgent 2 5 0.1 0.9 0.3 0.995 0.01) 0.5
       [(20, [\<lparr>draw_u = 0.5, draw_k = 0, draw_noise = 0, draw_noise_m = 0,
               draw_noise_f = 0\<rparr>])]))
     = epsilon (new_agent HybridAdaptiveAgent 2 5 0.1 0.9 0.3 0.995 0.01)
   \<and> epsilon (fst (evaluate_agent_comprehensive
       ((new_agent QLearningAgent 1 6 0.1 0.9 0.3 0.995 0.01)
          \<lparr>q_table := [[0, 0, 0, 0, 0, 0.1]], total_updates := 1\<rparr>) 0.5
       [(20, [\<lparr>draw_u = 0.5, draw_k = 0, draw_noise = 0, draw_noise_m = 0,
               draw_noise_f = 0\<rparr>])])) = 0
   \<and> (\<exists>m'. evaluate_agent_comprehensive
         (new_agent HybridAdaptiveAgent 2 5 0.1 0.9 0.3 0.995 0.01) 0.5
         [(20, [\<lparr>draw_u = 0.5, draw_k = 0, draw_noise = 0, draw_noise_m = 0,
                 draw_noise_f = 0\<rparr>])]
       = (new_agent HybridAdaptiveAgent 2 5 0.1 0.9 0.3 0.995 0.01, Inr m'))"
proof -
  let ?A = "new_agent HybridAdaptiveAgent 2 5 0.1 0.9 0.3 0.995 0.01"
  let ?eps = "[(20::real, [\<lparr>draw_u = 0.5, draw_k = 0, draw_noise = 0, draw_noise_m = 0,
               draw_noise_f = 0\<rparr>])]"
  have a: "snd (evaluate_agent_comprehensive ?A 0.5 ?eps)
     = Inr \<lparr>temperatures = [19], male_comforts = [0.25], female_comforts = [0.09],
           male_tsvs = [- 1], female_tsvs = [- 2], male_preferences = [1],
           female_preferences = [1]\<rparr>"
    unfolding eval_example_normal by simp
  have b: "snd (evaluate_agent_comprehensive
       ((new_agent QLearningAgent 1 6 0.1 0.9 0.3 0.995 0.01)
          \<lparr>q_table := [[0, 0, 0, 0, 0, 0.1]], total_updates := 1\<rparr>) 0.5 ?eps) = Inl IndexError"
    unfolding eval_example_raises by simp
  have c: "(\<forall>ep\<in>set ?eps. \<forall>d\<in>set (snd ep). 0 \<le> draw_u d)
       \<and> 1 \<le> state_bins ?A \<and> length (q_table ?A) = state_bins ?A
       \<and> (\<forall>row\<in>set (q_table ?A). row \<noteq> [] \<and> length row \<le> 5)"
    by (simp add: new_agent_def)
  from evaluate_restores_epsilon_on_return [THEN conjunct1, THEN mp, OF a, THEN conjunct2]
    evaluate_restores_epsilon_on_return [THEN conjunct2, THEN conjunct1, THEN mp, OF b,
      THEN conjunct2]
    evaluate_restores_epsilon_on_return [THEN conjunct2, THEN conjunct2, THEN mp, OF c]
  show ?thesis by (intro conjI)
qed

text \<open>
  C1 as stated fails for an agent with six actions whose table prefers the sixth: the
  greedy action 5 is outside the environment's five actions, \<open>step\<close> raises, and after
  the call epsilon is 0 where it was 0.3. The agent is the one that a single call of
  \<open>learn\<close> makes of a newly constructed agent.
\<close>

theorem evaluate_exception_counterexample:
  "learn (new_agent QLearningAgent 1 6 0.1 0.9 0.3 0.995 0.01) 0 5 1 0
     = Inr ((new_agent QLearningAgent 1 6 0.1 0.9 0.3 0.995 0.01)
        \<lparr>q_table := [[0, 0, 0, 0, 0, 0.1]], total_updates := 1\<rparr>)
   \<and> epsilon ((new_agent QLearningAgent 1 6 0.1 0.9 0.3 0.995 0.01)
        \<lparr>q_table := [[0, 0, 0, 0, 0, 0.1]], total_updates := 1\<rparr>) = 0.3
   \<and> snd (evaluate_agent_comprehensive
       ((new_agent QLearningAgent 1 6 0.1 0.9 0.3 0.995 0.01)
          \<lparr>q_table := [[0, 0, 0, 0, 0, 0.1]], total_updates := 1\<rparr>) 0.5
       [(20, [\<lparr>draw_u = 0.5, draw_k = 0, draw_noise = 0, draw_noise_m = 0,
               draw_noise_f = 0\<rparr>])]) = Inl IndexError
   \<and> epsilon (fst (evaluate_agent_comprehensive
       ((new_agent QLearningAgent 1 6 0.1 0.9 0.3 0.995 0.01)
          \<lparr>q_table := [[0, 0, 0, 0, 0, 0.1]], total_updates := 1\<rparr>) 0.5
       [(20, [\<lparr>draw_u = 0.5, draw_k = 0, draw_noise = 0, draw_noise_m = 0,
               draw_noise_f = 0\<rparr>])])) = 0"
  unfolding eval_example_raises learn_example_six_actions
  by (simp add: new_agent_def)

subsection \<open>Epsilon under updates\<close>

lemma learn_fields:
  assumes "learn a s act r s' = Inr a'"
  shows "total_updates a' = total_updates a + 1"
    and "min_epsilon a' = min_epsilon a"
    and "epsilon_decay a' = epsilon_decay a"
    and "alpha a' = alpha a"
    and "gamma a' = gamma a"
    and "epsilon a' = (if (total_updates a + 1) mod 500 = 0
                       then max (min_epsilon a) (epsilon a * epsilon_decay a) else epsilon a)"
  using assms unfolding learn_def Let_def
  by (auto split: sum.splits if_splits)

lemma learn_epsilon_lower:
  assumes "learn a s act r s' = Inr a'" and "min_epsilon a \<le> epsilon a"
  shows "min_epsilon a' \<le> epsilon a'"
  using assms(2) unfolding learn_fields(2,6)[OF assms(1)] by simp

lemma learn_epsilon_upper:
  assumes "learn a s act r s' = Inr a'" and "min_epsilon a \<le> epsilon a"
    and "epsilon a \<le> E" and "0 \<le> E" and "0 \<le> epsilon_decay a" and "epsilon_decay a \<le> 1"
  shows "epsilon a' \<le> E"
proof -
  have "epsilon a * epsilon_decay a \<le> E"
  proof (cases "0 \<le> epsilon a")
    case True
    then have "epsilon a * epsilon_decay a \<le> epsilon a * 1"
      using assms(6) by (intro mult_left_mono) simp_all
    then show ?thesis using assms(3) by simp
  next
    case False
    then have "epsilon a * epsilon_decay a \<le> 0"
      using assms(5) by (simp add: mult_nonpos_nonneg)
    then show ?thesis using assms(4) by simp
  qed
  then show ?thesis
    using assms(2,3) unfolding learn_fields(6)[OF assms(1)] by simp
qed

lemma learn_all_epsilon_lower:
  "learn_all a calls = Inr a' \<Longrightarrow> min_epsilon a \<le> epsilon a \<Longrightarrow>
     min_epsilon a' = min_epsilon a \<and> min_epsilon a \<le> epsilon a'"
proof (induction calls arbitrary: a)
  case Nil
  then show ?case by simp
next
  case (Cons c calls)
  obtain s act r s' where c: "c = (s, act, r, s')" by (cases c) auto
  from Cons.prems(1) obtain a1 where l: "learn a s act r s' = Inr a1"
    and rest: "learn_all a1 calls = Inr a'"
    unfolding c by (auto split: sum.splits)
  have "min_epsilon a1 \<le> epsilon a1" by (rule learn_epsilon_lower[OF l Cons.prems(2)])
  from Cons.IH[OF rest this] show ?case
    unfolding learn_fields(2)[OF l] .
qed

lemma learn_all_epsilon_upper:
  "learn_all a calls = Inr a' \<Longrightarrow> min_epsilon a \<le> epsilon a \<Longrightarrow> epsilon a \<le> E \<Longrightarrow>
     0 \<le> E \<Longrightarrow> 0 \<le> epsilon_decay a \<Longrightarrow> epsilon_decay a \<le> 1 \<Longrightarrow> epsilon a' \<le> E"
proof (induction calls arbitrary: a)
  case Nil
  then show ?case by simp
next
  case (Cons c calls)
  obtain s act r s' where c: "c = (s, act, r, s')" by (cases c) auto
  from Cons.prems(1) obtain a1 where l: "learn a s act r s' = Inr a1"
    and rest: "learn_all a1 calls = Inr a'"
    unfolding c by (auto split: sum.splits)
  have lo: "min_epsilon a1 \<le> epsilon a1" by (rule learn_epsilon_lower[OF l Cons.prems(2)])
  have up: "epsilon a1 \<le> E"
    by (rule learn_epsilon_upper[OF l Cons.prems(2,3,4,5,6)])
  show ?case
    using Cons.IH[OF rest lo up Cons.prems(4)] Cons.prems(5,6)
    unfolding learn_fields(3)[OF l] by simp
qed

lemma learn_all_append:
  "learn_all a xs = Inr a1 \<Longrightarrow> learn_all a1 ys = Inr a2 \<Longrightarrow> learn_all a (xs @ ys) = Inr a2"
proof (induction xs arbitrary: a)
  case Nil
  then show ?case by simp
next
  case (Cons c xs)
  obtain s act r s' where c: "c = (s, act, r, s')" by (cases c) auto
  from Cons.prems(1) obtain b where l: "learn a s act r s' = Inr b"
    and rest: "learn_all b xs = Inr a1"
    unfolding c by (auto split: sum.splits)
  from Cons.IH[OF rest Cons.prems(2)] l show ?case
    unfolding c by simp
qed

lemma train_steps_learn_all:
  "train_steps agent env state acc ds = Inr (agent', env', state', acc') \<Longrightarrow>
     \<exists>calls. learn_all agent calls = Inr agent'"
proof (induction ds arbitrary: agent env state acc)
  case Nil
  then have "learn_all agent [] = Inr agent'" by simp
  then show ?case by blast
next
  case (Cons d ds)
  from Cons.prems obtain a1 e1 s1 c1 where
    st: "train_step agent env state acc d = Inr (a1, e1, s1, c1)"
    and rest: "train_steps a1 e1 s1 c1 ds = Inr (agent', env', state', acc')"
    by (auto split: sum.splits)
  from train_step_next_state[OF st] obtain action r where
    l: "learn agent state action r s1 = Inr a1" by blast
  from Cons.IH[OF rest] obtain calls where "learn_all a1 calls = Inr agent'" by blast
  with l have "learn_all agent ((state, action, r, s1) # calls) = Inr agent'" by simp
  then show ?case by blast
qed

lemma train_episodes_learn_all:
  "train_episodes agent env metrics episodes = Inr (agent', env', metrics') \<Longrightarrow>
     \<exists>calls. learn_all agent calls = Inr agent'"
proof (induction episodes arbitrary: agent env metrics)
  case Nil
  then have "learn_all agent [] = Inr agent'" by simp
  then show ?case by blast
next
  case (Cons ep episodes)
  from Cons.prems obtain a1 e1 m1 where
    ep: "train_episode agent env metrics ep = Inr (a1, e1, m1)"
    and rest: "train_episodes a1 e1 m1 episodes = Inr (agent', env', metrics')"
    by (auto split: sum.splits)
  from train_episode_initial_state[OF ep] obtain state0 state1 acc1 where
    "train_steps agent (env\<lparr>current_temp := fst ep\<rparr>) state0
            \<lparr>episode_reward = 0, episode_male_comfort = 0, episode_female_comfort = 0,
             episode_temps = []\<rparr> (snd ep) = Inr (a1, e1, state1, acc1)"
    by blast
  from train_steps_learn_all[OF this] obtain xs where xs: "learn_all agent xs = Inr a1"
    by blast
  from Cons.IH[OF rest] obtain ys where "learn_all a1 ys = Inr agent'" by blast
  from learn_all_append[OF xs this] show ?case by blast
qed

lemma train_agent_learn_all:
  "train_agent agent env episodes = Inr (agent', env', metrics') \<Longrightarrow>
     \<exists>calls. learn_all agent calls = Inr agent'"
  unfolding train_agent_def by (rule train_episodes_learn_all)

lemma learn_idle:
  assumes "q_table b = [[0]]"
  shows "learn b 0 0 0 0 =
     Inr (if (total_updates b + 1) mod 500 = 0
          then b\<lparr>total_updates := total_updates b + 1,
                 epsilon := max (min_epsilon b) (epsilon b * epsilon_decay b)\<rparr>
          else b\<lparr>total_updates := total_updates b + 1\<rparr>)"
proof -
  have "b\<lparr>q_table := [[0]]\<rparr> = b" using assms by (cases b) simp
  then show ?thesis
    unfolding learn_def Let_def
    by (simp add: assms np_index2_def py_index_def np_max_def np_set2_def norm_index_def)
qed

lemma learn_all_idle:
  "q_table b = [[0]] \<Longrightarrow> 0 \<le> total_updates b \<Longrightarrow> total_updates b + int n < 500 \<Longrightarrow>
     learn_all b (replicate n (0, 0, 0, 0)) = Inr (b\<lparr>total_updates := total_updates b + int n\<rparr>)"
proof (induction n arbitrary: b)
  case 0
  then show ?case by simp
next
  case (Suc n)
  let ?b1 = "b\<lparr>total_updates := total_updates b + 1\<rparr>"
  have m: "(total_updates b + 1) mod 500 \<noteq> 0" using Suc.prems(2,3) by simp
  have l: "learn b 0 0 0 0 = Inr ?b1"
    unfolding learn_idle[OF Suc.prems(1)] using m by simp
  have "learn_all ?b1 (replicate n (0, 0, 0, 0))
           = Inr (?b1\<lparr>total_updates := total_updates ?b1 + int n\<rparr>)"
    using Suc.prems by (intro Suc.IH) simp_all
  then show ?case using l by (simp add: add.assoc)
qed

lemma doubling_agent_500:
  "learn_all (new_agent QLearningAgent 1 1 0.1 0.9 0.3 2 0.01) (replicate 500 (0, 0, 0, 0))
     = Inr ((new_agent QLearningAgent 1 1 0.1 0.9 0.3 2 0.01)
              \<lparr>total_updates := 500, epsilon := 0.6\<rparr>)"
proof -
  let ?B = "new_agent QLearningAgent 1 1 0.1 0.9 0.3 2 0.01"
  have q: "q_table ?B = [[0]]" and t: "total_updates ?B = 0"
    by (simp_all add: new_agent_def)
  have first: "learn_all ?B (replicate 499 (0, 0, 0, 0)) = Inr (?B\<lparr>total_updates := 499\<rparr>)"
    using learn_all_idle[of ?B 499] q t by simp
  have "learn (?B\<lparr>total_updates := 499\<rparr>) 0 0 0 0
          = Inr (?B\<lparr>total_updates := 500, epsilon := 0.6\<rparr>)"
    by (subst learn_idle) (simp_all add: new_agent_def)
  then have last: "learn_all (?B\<lparr>total_updates := 499\<rparr>) [(0, 0, 0, 0)]
          = Inr (?B\<lparr>total_updates := 500, epsilon := 0.6\<rparr>)"
    by simp
  have "replicate (499 + 1) (0::int, 0::int, 0::real, 0::int)
          = replicate 499 (0, 0, 0, 0) @ replicate 1 (0, 0, 0, 0)"
    by (rule replicate_add)
  then have "replicate 500 (0::int, 0::int, 0::real, 0::int)
          = replicate 499 (0, 0, 0, 0) @ [(0, 0, 0, 0)]"
    by simp
  then show ?thesis using learn_all_append[OF first last] by simp
qed

lemma learn_example_decay:
  "learn ((new_agent HybridAdaptiveAgent 2 5 0.1 0.9 0.3 0.995 0.01)\<lparr>total_updates := 499\<rparr>)
     0 0 1 0
   = Inr ((new_agent HybridAdaptiveAgent 2 5 0.1 0.9 0.3 0.995 0.01)
        \<lparr>q_table := [[0.1, 0, 0, 0, 0], [0, 0, 0, 0, 0]], total_updates := 500,
         epsilon := 0.2985\<rparr>)"
  by code_simp

lemma train_agent_example:
  "train_agent ((new_agent HybridAdaptiveAgent 2 5 0.1 0.9 0.3 0.995 0.01)\<lparr>total_updates := 499\<rparr>)
     (ASHRAEEnvironment 0.5 0 50)
     [(20, [\<lparr>draw_u = 0.5, draw_k = 0, draw_noise = 0, draw_noise_m = 0, draw_noise_f = 0\<rparr>])]
   = Inr ((new_agent HybridAdaptiveAgent 2 5 0.1 0.9 0.3 0.995 0.01)
            \<lparr>q_table := [[0.017, 0, 0, 0, 0], [0, 0, 0, 0, 0]], total_updates := 500,
             epsilon := 0.2985\<rparr>,
          (ASHRAEEnvironment 0.5 0 50)\<lparr>current_temp := 19\<rparr>,
          \<lparr>train_rewards = [0.17], train_male_comforts = [0.25],
           train_female_comforts = [0.09], train_fairness_gaps = [0.16],
           train_temperatures = [19]\<rparr>)"
  by code_simp

text \<open>
  C3, amended. Let the agent's epsilon be at least its \<open>min_epsilon\<close>. A successful update
  increments the counter and leaves epsilon as it is unless the incremented counter is a
  multiple of 500, where epsilon becomes \<open>max min_epsilon (epsilon * epsilon_decay)\<close>.
  After any sequence of updates, and after any run of \<open>train_agent\<close>, epsilon is still at
  least \<open>min_epsilon\<close>; it is at most its initial value when that value is not negative
  and the decay factor lies in \<open>[0, 1]\<close>.
\<close>

theorem epsilon_bounds_under_training:
  assumes "min_epsilon a \<le> epsilon a"
  shows "(learn a s act r s' = Inr a1 \<longrightarrow>
            total_updates a1 = total_updates a + 1
          \<and> epsilon a1 = (if total_updates a1 mod 500 = 0
                          then max (min_epsilon a) (epsilon a * epsilon_decay a)
                          else epsilon a))
       \<and> (learn_all a calls = Inr a2 \<longrightarrow>
            min_epsilon a \<le> epsilon a2
          \<and> (0 \<le> epsilon a \<and> 0 \<le> epsilon_decay a \<and> epsilon_decay a \<le> 1
               \<longrightarrow> epsilon a2 \<le> epsilon a))
       \<and> (train_agent a env episodes = Inr (a3, env3, metrics3) \<longrightarrow>
            min_epsilon a \<le> epsilon a3
          \<and> (0 \<le> epsilon a \<and> 0 \<le> epsilon_decay a \<and> epsilon_decay a \<le> 1
               \<longrightarrow> epsilon a3 \<le> epsilon a))"
proof -
  have one: "total_updates a1 = total_updates a + 1
          \<and> epsilon a1 = (if total_updates a1 mod 500 = 0
                          then max (min_epsilon a) (epsilon a * epsilon_decay a)
                          else epsilon a)"
    if "learn a s act r s' = Inr a1"
    using learn_fields(1,6)[OF that] by simp
  have many: "min_epsilon a \<le> epsilon b
          \<and> (0 \<le> epsilon a \<and> 0 \<le> epsilon_decay a \<and> epsilon_decay a \<le> 1
               \<longrightarrow> epsilon b \<le> epsilon a)"
    if "learn_all a cs = Inr b" for cs b
    using learn_all_epsilon_lower[OF that assms]
      learn_all_epsilon_upper[OF that assms, of "epsilon a"] by simp
  have train: "min_epsilon a \<le> epsilon a3
          \<and> (0 \<le> epsilon a \<and> 0 \<le> epsilon_decay a \<and> epsilon_decay a \<le> 1
               \<longrightarrow> epsilon a3 \<le> epsilon a)"
    if "train_agent a env episodes = Inr (a3, env3, metrics3)"
    using train_agent_learn_all[OF that] many by blast
  show ?thesis using one many train by blast
qed

theorem epsilon_bounds_under_training_witness:
  "min_epsilon ((new_agent HybridAdaptiveAgent 2 5 0.1 0.9 0.3 0.995 0.01)\<lparr>total_updates := 499\<rparr>)
     \<le> epsilon ((new_agent HybridAdaptiveAgent 2 5 0.1 0.9 0.3 0.995 0.01)\<lparr>total_updates := 499\<rparr>)
   \<and> total_updates ((new_agent HybridAdaptiveAgent 2 5 0.1 0.9 0.3 0.995 0.01)
        \<lparr>q_table := [[0.1, 0, 0, 0, 0], [0, 0, 0, 0, 0]], total_updates := 500,
         epsilon := 0.2985\<rparr>) = 499 + 1
   \<and> epsilon ((new_agent HybridAdaptiveAgent 2 5 0.1 0.9 0.3 0.995 0.01)
        \<lparr>q_table := [[0.1, 0, 0, 0, 0], [0, 0, 0, 0, 0]], total_updates := 500,
         epsilon := 0.2985\<rparr>) = max 0.01 (0.3 * 0.995)
   \<and> epsilon ((new_agent HybridAdaptiveAgent 2 5 0.1 0.9 0.3 0.995 0.01)
        \<lparr>q_table := [[0.1, 0, 0, 0, 0], [0, 0, 0, 0, 0]], total_updates := 500,
         epsilon := 0.2985\<rparr>) \<le> 0.3
   \<and> 0.01 \<le> epsilon ((new_agent HybridAdaptiveAgent 2 5 0.1 0.9 0.3 0.995 0.01)
            \<lparr>q_table := [[0.017, 0, 0, 0, 0], [0, 0, 0, 0, 0]], total_updates := 500,
             epsilon := 0.2985\<rparr>)
   \<and> epsilon ((new_agent HybridAdaptiveAgent 2 5 0.1 0.9 0.3 0.995 0.01)
            \<lparr>q_table := [[0.017, 0, 0, 0, 0], [0, 0, 0, 0, 0]], total_updates := 500,
             epsilon := 0.2985\<rparr>) \<le> 0.3"
proof -
  let ?A = "(new_agent HybridAdaptiveAgent 2 5 0.1 0.9 0.3 0.995 0.01)\<lparr>total_updates := 499\<rparr>"
  let ?A1 = "(new_agent HybridAdaptiveAgent 2 5 0.1 0.9 0.3 0.995 0.01)
        \<lparr>q_table := [[0.1, 0, 0, 0, 0], [0, 0, 0, 0, 0]], total_updates := 500,
         epsilon := 0.2985\<rparr>"
  let ?A3 = "(new_agent HybridAdaptiveAgent 2 5 0.1 0.9 0.3 0.995 0.01)
            \<lparr>q_table := [[0.017, 0, 0, 0, 0], [0, 0, 0, 0, 0]], total_updates := 500,
             epsilon := 0.2985\<rparr>"
  have f: "min_epsilon ?A = 0.01" "epsilon ?A = 0.3" "epsilon_decay ?A = 0.995"
    "total_updates ?A = 499"
    by (simp_all add: new_agent_def)
  have h: "min_epsilon ?A \<le> epsilon ?A" unfolding f by simp
  have cond: "0 \<le> epsilon ?A \<and> 0 \<le> epsilon_decay ?A \<and> epsilon_decay ?A \<le> 1"
    unfolding f by simp
  have m: "total_updates ?A1 mod 500 = 0" by (simp add: new_agent_def)
  have la: "learn_all ?A [(0, 0, 1, 0)] = Inr ?A1"
    using learn_example_decay by simp
  note main = epsilon_bounds_under_training [OF h]
  have c1: "total_updates ?A1 = 499 + 1 \<and> epsilon ?A1 = max 0.01 (0.3 * 0.995)"
    using main [THEN conjunct1, THEN mp, OF learn_example_decay]
    unfolding f if_P[OF m] .
  have c2: "epsilon ?A1 \<le> 0.3"
    using main [THEN conjunct2, THEN conjunct1, THEN mp, OF la, THEN conjunct2, THEN mp, OF cond]
    unfolding f .
  have c3: "0.01 \<le> epsilon ?A3 \<and> epsilon ?A3 \<le> 0.3"
    using main [THEN conjunct2, THEN conjunct2, THEN mp, OF train_agent_example] cond
    unfolding f by blast
  from h c1 c2 c3 show ?thesis by blast
qed

text \<open>
  C3 as stated fails in two ways. During an evaluation the default agent, constructed with
  epsilon 0.3 and \<open>min_epsilon\<close> 0.01, has epsilon 0. And an agent constructed with the
  decay factor 2 has, after 500 updates, epsilon 0.6, above its initial 0.3.
\<close>

theorem epsilon_interval_counterexample:
  "min_epsilon (default_agent QLearningAgent) \<le> epsilon (default_agent QLearningAgent)
   \<and> epsilon (pure_exploitation (default_agent QLearningAgent))
       < min_epsilon (pure_exploitation (default_agent QLearningAgent))
   \<and> min_epsilon (new_agent QLearningAgent 1 1 0.1 0.9 0.3 2 0.01)
       \<le> epsilon (new_agent QLearningAgent 1 1 0.1 0.9 0.3 2 0.01)
   \<and> learn_all (new_agent QLearningAgent 1 1 0.1 0.9 0.3 2 0.01) (replicate 500 (0, 0, 0, 0))
       = Inr ((new_agent QLearningAgent 1 1 0.1 0.9 0.3 2 0.01)
                \<lparr>total_updates := 500, epsilon := 0.6\<rparr>)
   \<and> epsilon (new_agent QLearningAgent 1 1 0.1 0.9 0.3 2 0.01)
       < epsilon ((new_agent QLearningAgent 1 1 0.1 0.9 0.3 2 0.01)
                \<lparr>total_updates := 500, epsilon := 0.6\<rparr>)"
  unfolding doubling_agent_500
  by (simp add: default_agent_def new_agent_def pure_exploitation_def)

subsection \<open>The Bellman update\<close>

lemma norm_index_less: "- int n \<le> i \<Longrightarrow> i < int n \<Longrightarrow> norm_index n i < n"
  unfolding norm_index_def by auto

lemma py_index_Inr_conv:
  "py_index xs i = Inr x \<longleftrightarrow>
     - int (length xs) \<le> i \<and> i < int (length xs) \<and> x = xs ! norm_index (length xs) i"
  unfolding py_index_def by auto

lemma np_index2_Inr_conv:
  "np_index2 q i j = Inr x \<longleftrightarrow> (\<exists>row. py_index q i = Inr row \<and> py_index row j = Inr x)"
  unfolding np_index2_def by (auto split: sum.splits)

lemma py_index_np_set2_same:
  assumes "py_index q s = Inr row"
  shows "py_index (np_set2 q s act v) s = Inr (row[norm_index (length row) act := v])"
proof -
  from assms have valid: "- int (length q) \<le> s" "s < int (length q)"
    and row: "row = q ! norm_index (length q) s"
    unfolding py_index_Inr_conv by simp_all
  have "norm_index (length q) s < length q" by (rule norm_index_less[OF valid])
  then show ?thesis
    unfolding py_index_Inr_conv np_set2_def Let_def row using valid by simp
qed

lemma py_index_np_set2_other:
  assumes "py_index q s' = Inr row'"
    and "norm_index (length q) s' \<noteq> norm_index (length q) s"
  shows "py_index (np_set2 q s act v) s' = Inr row'"
  using assms unfolding py_index_Inr_conv np_set2_def Let_def by simp

lemma py_index_update_same:
  assumes "py_index row act = Inr old"
  shows "py_index (row[norm_index (length row) act := v]) act = Inr v"
proof -
  from assms have valid: "- int (length row) \<le> act" "act < int (length row)"
    unfolding py_index_Inr_conv by simp_all
  have "norm_index (length row) act < length row" by (rule norm_index_less[OF valid])
  then show ?thesis
    unfolding py_index_Inr_conv using valid by simp
qed

lemma np_index2_np_set2_same:
  assumes "np_index2 q s act = Inr old"
  shows "np_index2 (np_set2 q s act v) s act = Inr v"
proof -
  from assms obtain row where r: "py_index q s = Inr row" and c: "py_index row act = Inr old"
    unfolding np_index2_Inr_conv by blast
  show ?thesis
    unfolding np_index2_Inr_conv
    using py_index_np_set2_same[OF r] py_index_update_same[OF c] by blast
qed

lemma learn_success:
  assumes "np_index2 (q_table a) s act = Inr old"
    and "py_index (q_table a) s' = Inr row" and "row \<noteq> []"
  shows "\<exists>a'. learn a s act r s' = Inr a'
           \<and> q_table a' = np_set2 (q_table a) s act
                 (old + alpha a * (r + gamma a * Max (set row) - old))
           \<and> total_updates a' = total_updates a + 1
           \<and> alpha a' = alpha a \<and> gamma a' = gamma a"
  unfolding learn_def Let_def using assms by (simp add: np_max_def)

lemma row_max_at_entry:
  assumes "py_index row act = Inr v" and "\<forall>x\<in>set row. x \<le> v"
  shows "row \<noteq> [] \<and> Max (set row) = v"
proof -
  from assms(1) have valid: "- int (length row) \<le> act" "act < int (length row)"
    and v: "v = row ! norm_index (length row) act"
    unfolding py_index_Inr_conv by simp_all
  have j: "norm_index (length row) act < length row" by (rule norm_index_less[OF valid])
  then have mem: "v \<in> set row" unfolding v by (rule nth_mem)
  then have ne: "row \<noteq> []" by auto
  have "Max (set row) = v"
    using assms(2) mem by (intro Max_eqI) simp_all
  with ne show ?thesis by simp
qed

lemma self_loop_step:
  assumes v: "np_index2 (q_table a) s act = Inr v"
    and rw: "py_index (q_table a) s = Inr row"
    and mx: "\<forall>x\<in>set row. x \<le> v"
    and up: "v \<le> v + alpha a * (r + gamma a * v - v)"
  shows "\<exists>a' row'. learn a s act r s = Inr a' \<and> alpha a' = alpha a \<and> gamma a' = gamma a
     \<and> np_index2 (q_table a') s act = Inr (v + alpha a * (r + gamma a * v - v))
     \<and> py_index (q_table a') s = Inr row'
     \<and> (\<forall>x\<in>set row'. x \<le> v + alpha a * (r + gamma a * v - v))"
proof -
  let ?v' = "v + alpha a * (r + gamma a * v - v)"
  from v rw have c: "py_index row act = Inr v"
    unfolding np_index2_Inr_conv by auto
  from row_max_at_entry[OF c mx] have ne: "row \<noteq> []" and m: "Max (set row) = v"
    by simp_all
  from learn_success[OF v rw ne, of r] obtain a' where
    l: "learn a s act r s = Inr a'"
    and q: "q_table a' = np_set2 (q_table a) s act ?v'"
    and ag: "alpha a' = alpha a" "gamma a' = gamma a"
    unfolding m by blast
  have cell: "np_index2 (q_table a') s act = Inr ?v'"
    unfolding q by (rule np_index2_np_set2_same[OF v])
  have row': "py_index (q_table a') s = Inr (row[norm_index (length row) act := ?v'])"
    unfolding q by (rule py_index_np_set2_same[OF rw])
  have "\<forall>x\<in>set (row[norm_index (length row) act := ?v']). x \<le> ?v'"
  proof
    fix x assume "x \<in> set (row[norm_index (length row) act := ?v'])"
    then have "x \<in> insert ?v' (set row)"
      using set_update_subset_insert by fast
    then show "x \<le> ?v'" using mx up by auto
  qed
  with l ag cell row' show ?thesis by blast
qed

lemma bellman_fixed_point_algebra:
  fixes v r a g L :: real
  assumes "r = (1 - g) * L"
  shows "v + a * (r + g * v - v) = L + (1 - a * (1 - g)) * (v - L)"
  unfolding assms by (simp add: algebra_simps)

lemma contraction_bounds:
  fixes v L x :: real
  assumes "0 \<le> x" and "x \<le> 1" and "v \<le> L"
  shows "v \<le> L + (1 - x) * (v - L)" and "L + (1 - x) * (v - L) \<le> L"
proof -
  have "L + (1 - x) * (v - L) - v = x * (L - v)" by (simp add: algebra_simps)
  moreover have "0 \<le> x * (L - v)" using assms(1,3) by simp
  ultimately show "v \<le> L + (1 - x) * (v - L)" by simp
  have "(1 - x) * (v - L) \<le> 0"
    using assms(2,3) by (intro mult_nonneg_nonpos) simp_all
  then show "L + (1 - x) * (v - L) \<le> L" by simp
qed

lemma self_loop_iterate:
  fixes r :: real
  assumes "0 < alpha a" and "alpha a \<le> 1" and "0 \<le> gamma a" and "gamma a < 1"
    and "np_index2 (q_table a) s act = Inr v"
    and "py_index (q_table a) s = Inr row"
    and "\<forall>x\<in>set row. x \<le> v"
    and "v \<le> r / (1 - gamma a)"
  shows "\<exists>a'. learn_all a (replicate n (s, act, r, s)) = Inr a'
           \<and> np_index2 (q_table a') s act
               = Inr (r / (1 - gamma a)
                      + (1 - alpha a * (1 - gamma a)) ^ n * (v - r / (1 - gamma a)))"
  using assms
proof (induction n arbitrary: a v row)
  case 0
  then show ?case by simp
next
  case (Suc n)
  define L where "L = r / (1 - gamma a)"
  define x where "x = alpha a * (1 - gamma a)"
  let ?v1 = "v + alpha a * (r + gamma a * v - v)"
  have g: "0 < 1 - gamma a" using Suc.prems(4) by simp
  have rL: "r = (1 - gamma a) * L" unfolding L_def using g by simp
  have v1: "?v1 = L + (1 - x) * (v - L)"
    unfolding x_def by (rule bellman_fixed_point_algebra[OF rL])
  have x0: "0 \<le> x" unfolding x_def using Suc.prems(1) g by simp
  have "alpha a * (1 - gamma a) \<le> 1 * 1"
    using Suc.prems(1,2,3) g by (intro mult_mono) simp_all
  then have x1: "x \<le> 1" unfolding x_def by simp
  have vL: "v \<le> L" unfolding L_def by (rule Suc.prems(8))
  have up: "v \<le> ?v1" unfolding v1 by (rule contraction_bounds(1)[OF x0 x1 vL])
  have below: "?v1 \<le> L" unfolding v1 by (rule contraction_bounds(2)[OF x0 x1 vL])
  from self_loop_step[OF Suc.prems(5,6,7) up] obtain a1 row1 where
    l: "learn a s act r s = Inr a1"
    and ag1: "alpha a1 = alpha a" "gamma a1 = gamma a"
    and cell: "np_index2 (q_table a1) s act = Inr ?v1"
    and row1: "py_index (q_table a1) s = Inr row1"
    and mx1: "\<forall>x\<in>set row1. x \<le> ?v1"
    by blast
  have "\<exists>a'. learn_all a1 (replicate n (s, act, r, s)) = Inr a'
           \<and> np_index2 (q_table a') s act
               = Inr (r / (1 - gamma a1)
                      + (1 - alpha a1 * (1 - gamma a1)) ^ n * (?v1 - r / (1 - gamma a1)))"
    using Suc.prems(1,2,3,4) below
    by (intro Suc.IH[OF _ _ _ _ cell row1 mx1]) (simp_all add: ag1 L_def)
  then obtain a' where la: "learn_all a1 (replicate n (s, act, r, s)) = Inr a'"
    and val: "np_index2 (q_table a') s act = Inr (L + (1 - x) ^ n * (?v1 - L))"
    unfolding ag1 L_def x_def by blast
  have "L + (1 - x) ^ n * (?v1 - L) = L + (1 - x) ^ Suc n * (v - L)"
    unfolding v1 by simp
  with la val l show ?case unfolding L_def x_def by simp
qed

lemma length_np_set2: "length (np_set2 q s act v) = length q"
  unfolding np_set2_def Let_def by simp

lemma fixed_row_step:
  assumes v: "np_index2 (q_table a) s act = Inr v"
    and rw: "py_index (q_table a) s' = Inr row" and ne: "row \<noteq> []"
    and diff: "norm_index (length (q_table a)) s' \<noteq> norm_index (length (q_table a)) s"
  shows "\<exists>a'. learn a s act r s' = Inr a' \<and> alpha a' = alpha a \<and> gamma a' = gamma a
     \<and> np_index2 (q_table a') s act = Inr (v + alpha a * (r + gamma a * Max (set row) - v))
     \<and> py_index (q_table a') s' = Inr row
     \<and> length (q_table a') = length (q_table a)"
proof -
  let ?v' = "v + alpha a * (r + gamma a * Max (set row) - v)"
  from learn_success[OF v rw ne, of r] obtain a' where
    l: "learn a s act r s' = Inr a'"
    and q: "q_table a' = np_set2 (q_table a) s act ?v'"
    and ag: "alpha a' = alpha a" "gamma a' = gamma a"
    by blast
  have cell: "np_index2 (q_table a') s act = Inr ?v'"
    unfolding q by (rule np_index2_np_set2_same[OF v])
  have row': "py_index (q_table a') s' = Inr row"
    unfolding q by (rule py_index_np_set2_other[OF rw diff])
  have len: "length (q_table a') = length (q_table a)"
    unfolding q by (rule length_np_set2)
  from l ag cell row' len show ?thesis by blast
qed

lemma fixed_row_iterate:
  fixes r :: real
  assumes "np_index2 (q_table a) s act = Inr v"
    and "py_index (q_table a) s' = Inr row" and "row \<noteq> []"
    and "norm_index (length (q_table a)) s' \<noteq> norm_index (length (q_table a)) s"
  shows "\<exists>a'. learn_all a (replicate n (s, act, r, s')) = Inr a'
           \<and> np_index2 (q_table a') s act
               = Inr (r + gamma a * Max (set row)
                      + (1 - alpha a) ^ n * (v - (r + gamma a * Max (set row))))"
  using assms
proof (induction n arbitrary: a v)
  case 0
  then show ?case by simp
next
  case (Suc n)
  define L where "L = r + gamma a * Max (set row)"
  let ?v1 = "v + alpha a * (r + gamma a * Max (set row) - v)"
  have v1: "?v1 = L + (1 - alpha a) * (v - L)"
    unfolding L_def by (simp add: algebra_simps)
  from fixed_row_step[OF Suc.prems(1,2,3,4), of r] obtain a1 where
    l: "learn a s act r s' = Inr a1"
    and ag1: "alpha a1 = alpha a" "gamma a1 = gamma a"
    and cell: "np_index2 (q_table a1) s act = Inr ?v1"
    and row1: "py_index (q_table a1) s' = Inr row"
    and len: "length (q_table a1) = length (q_table a)"
    by blast
  have "\<exists>a'. learn_all a1 (replicate n (s, act, r, s')) = Inr a'
           \<and> np_index2 (q_table a') s act
               = Inr (r + gamma a1 * Max (set row)
                      + (1 - alpha a1) ^ n * (?v1 - (r + gamma a1 * Max (set row))))"
    using Suc.prems(4) by (intro Suc.IH[OF cell row1 Suc.prems(3)]) (simp add: len)
  then obtain a' where la: "learn_all a1 (replicate n (s, act, r, s')) = Inr a'"
    and val: "np_index2 (q_table a') s act = Inr (L + (1 - alpha a) ^ n * (?v1 - L))"
    unfolding ag1 L_def by blast
  have "L + (1 - alpha a) ^ n * (?v1 - L) = L + (1 - alpha a) ^ Suc n * (v - L)"
    unfolding v1 by simp
  with la val l show ?case unfolding L_def by simp
qed

lemma geometric_limit:
  fixes c L d :: real
  assumes "0 \<le> c" and "c < 1"
  shows "(\<lambda>n. L + c ^ n * d) \<longlonglongrightarrow> L"
proof -
  have "(\<lambda>n. c ^ n) \<longlonglongrightarrow> 0" by (rule LIMSEQ_realpow_zero[OF assms])
  then have "(\<lambda>n. L + c ^ n * d) \<longlonglongrightarrow> L + 0 * d"
    by (rule tendsto_add[OF tendsto_const tendsto_mult[OF _ tendsto_const]])
  then show ?thesis by simp
qed

lemma self_loop_limit:
  fixes r :: real
  assumes "0 < alpha a" and "alpha a \<le> 1" and "0 \<le> gamma a" and "gamma a < 1"
    and "np_index2 (q_table a) s act = Inr v"
    and "py_index (q_table a) s = Inr row"
    and "\<forall>x\<in>set row. x \<le> v"
    and "v \<le> r / (1 - gamma a)"
  shows "\<exists>f. (\<forall>n. \<exists>a'. learn_all a (replicate n (s, act, r, s)) = Inr a'
                    \<and> np_index2 (q_table a') s act = Inr (f n))
           \<and> f \<longlonglongrightarrow> r / (1 - gamma a)"
proof -
  let ?c = "1 - alpha a * (1 - gamma a)"
  let ?f = "\<lambda>n. r / (1 - gamma a) + ?c ^ n * (v - r / (1 - gamma a))"
  have g: "0 < 1 - gamma a" using assms(4) by simp
  have "alpha a * (1 - gamma a) \<le> 1 * 1"
    using assms(1,2,3) g by (intro mult_mono) simp_all
  then have c0: "0 \<le> ?c" by simp
  have "0 < alpha a * (1 - gamma a)" using assms(1) g by simp
  then have c1: "?c < 1" by simp
  have vals: "\<forall>n. \<exists>a'. learn_all a (replicate n (s, act, r, s)) = Inr a'
                    \<and> np_index2 (q_table a') s act = Inr (?f n)"
    using self_loop_iterate[OF assms] by blast
  have "?f \<longlonglongrightarrow> r / (1 - gamma a)"
    by (rule geometric_limit[OF c0 c1])
  with vals show ?thesis by (intro exI[of _ ?f] conjI)
qed

lemma fixed_row_limit:
  fixes r :: real
  assumes "0 < alpha a" and "alpha a \<le> 1"
    and "np_index2 (q_table a) s act = Inr v"
    and "py_index (q_table a) s' = Inr row" and "row \<noteq> []"
    and "norm_index (length (q_table a)) s' \<noteq> norm_index (length (q_table a)) s"
  shows "\<exists>f. (\<forall>n. \<exists>a'. learn_all a (replicate n (s, act, r, s')) = Inr a'
                    \<and> np_index2 (q_table a') s act = Inr (f n))
           \<and> f \<longlonglongrightarrow> r + gamma a * Max (set row)"
proof -
  let ?L = "r + gamma a * Max (set row)"
  let ?f = "\<lambda>n. ?L + (1 - alpha a) ^ n * (v - ?L)"
  have c0: "0 \<le> 1 - alpha a" and c1: "1 - alpha a < 1" using assms(1,2) by simp_all
  have vals: "\<forall>n. \<exists>a'. learn_all a (replicate n (s, act, r, s')) = Inr a'
                    \<and> np_index2 (q_table a') s act = Inr (?f n)"
    using fixed_row_iterate[OF assms(3,4,5,6)] by blast
  have "?f \<longlonglongrightarrow> ?L"
    by (rule geometric_limit[OF c0 c1])
  with vals show ?thesis by (intro exI[of _ ?f] conjI)
qed

lemma bellman_single_update:
  assumes "np_index2 (q_table a) s act = Inr old"
    and "py_index (q_table a) s' = Inr row" and "row \<noteq> []"
  shows "\<exists>a'. learn a s act r s' = Inr a'
           \<and> np_index2 (q_table a') s act
               = Inr (old + alpha a * (r + gamma a * Max (set row) - old))
           \<and> total_updates a' = total_updates a + 1"
proof -
  from learn_success[OF assms, of r] obtain a' where
    l: "learn a s act r s' = Inr a'"
    and q: "q_table a' = np_set2 (q_table a) s act
                 (old + alpha a * (r + gamma a * Max (set row) - old))"
    and t: "total_updates a' = total_updates a + 1"
    by blast
  have "np_index2 (q_table a') s act
               = Inr (old + alpha a * (r + gamma a * Max (set row) - old))"
    unfolding q by (rule np_index2_np_set2_same[OF assms(1)])
  with l t show ?thesis by blast
qed

lemma two_state_agent_facts:
  "alpha (new_agent QLearningAgent 2 1 0.1 0.9 0.3 0.995 0.01) = 0.1"
  "gamma (new_agent QLearningAgent 2 1 0.1 0.9 0.3 0.995 0.01) = 0.9"
  "total_updates (new_agent QLearningAgent 2 1 0.1 0.9 0.3 0.995 0.01) = 0"
  "q_table (new_agent QLearningAgent 2 1 0.1 0.9 0.3 0.995 0.01) = [[0], [0]]"
  by (simp_all add: new_agent_def numeral_2_eq_2)

lemma two_state_table_reads:
  "np_index2 [[0], [0::real]] 0 0 = Inr 0"
  "py_index [[0], [0::real]] 0 = Inr [0]"
  "py_index [[0], [0::real]] 1 = Inr [0]"
  "norm_index (length [[0], [0::real]]) 1 \<noteq> norm_index (length [[0], [0::real]]) 0"
  by (simp_all add: np_index2_def py_index_def norm_index_def)

text \<open>
  C8, amended. When the two reads of the table succeed, \<open>learn\<close> returns, the entry becomes
  \<open>old + alpha * (reward + gamma * max - old)\<close> for the maximum of the next state's row, and
  the counter grows by one. Repeating the update of one entry with a constant reward, for
  \<open>0 < alpha \<le> 1\<close>: when the next state is the state itself, \<open>0 \<le> gamma < 1\<close>, and the entry
  is the largest of its row and at most \<open>r / (1 - gamma)\<close>, every repetition succeeds and
  the entry converges to \<open>r / (1 - gamma)\<close>; when the next state is another row, which the
  updates leave unchanged, the entry converges to \<open>r + gamma * max\<close> of that row.
\<close>

theorem bellman_update_and_limits:
  "(np_index2 (q_table a) s act = Inr old \<and> py_index (q_table a) s' = Inr row \<and> row \<noteq> []
      \<longrightarrow> (\<exists>a'. learn a s act r s' = Inr a'
             \<and> np_index2 (q_table a') s act
                 = Inr (old + alpha a * (r + gamma a * Max (set row) - old))
             \<and> total_updates a' = total_updates a + 1))
   \<and> (0 < alpha a \<and> alpha a \<le> 1 \<and> 0 \<le> gamma a \<and> gamma a < 1
       \<and> np_index2 (q_table a) s act = Inr v \<and> py_index (q_table a) s = Inr rowS
       \<and> (\<forall>x\<in>set rowS. x \<le> v) \<and> v \<le> r / (1 - gamma a)
      \<longrightarrow> (\<exists>f. (\<forall>n. \<exists>a'. learn_all a (replicate n (s, act, r, s)) = Inr a'
                        \<and> np_index2 (q_table a') s act = Inr (f n))
               \<and> f \<longlonglongrightarrow> r / (1 - gamma a)))
   \<and> (0 < alpha a \<and> alpha a \<le> 1
       \<and> np_index2 (q_table a) s act = Inr v \<and> py_index (q_table a) s' = Inr row \<and> row \<noteq> []
       \<and> norm_index (length (q_table a)) s' \<noteq> norm_index (length (q_table a)) s
      \<longrightarrow> (\<exists>f. (\<forall>n. \<exists>a'. learn_all a (replicate n (s, act, r, s')) = Inr a'
                        \<and> np_index2 (q_table a') s act = Inr (f n))
               \<and> f \<longlonglongrightarrow> r + gamma a * Max (set row)))"
proof (intro conjI impI)
  assume h: "np_index2 (q_table a) s act = Inr old \<and> py_index (q_table a) s' = Inr row \<and> row \<noteq> []"
  show "\<exists>a'. learn a s act r s' = Inr a'
             \<and> np_index2 (q_table a') s act
                 = Inr (old + alpha a * (r + gamma a * Max (set row) - old))
             \<and> total_updates a' = total_updates a + 1"
    by (rule bellman_single_update[OF h[THEN conjunct1] h[THEN conjunct2, THEN conjunct1]
          h[THEN conjunct2, THEN conjunct2]])
next
  assume h: "0 < alpha a \<and> alpha a \<le> 1 \<and> 0 \<le> gamma a \<and> gamma a < 1
       \<and> np_index2 (q_table a) s act = Inr v \<and> py_index (q_table a) s = Inr rowS
       \<and> (\<forall>x\<in>set rowS. x \<le> v) \<and> v \<le> r / (1 - gamma a)"
  then have p: "0 < alpha a" "alpha a \<le> 1" "0 \<le> gamma a" "gamma a < 1"
    "np_index2 (q_table a) s act = Inr v" "py_index (q_table a) s = Inr rowS"
    "\<forall>x\<in>set rowS. x \<le> v" "v \<le> r / (1 - gamma a)"
    by blast+
  show "\<exists>f. (\<forall>n. \<exists>a'. learn_all a (replicate n (s, act, r, s)) = Inr a'
                        \<and> np_index2 (q_table a') s act = Inr (f n))
               \<and> f \<longlonglongrightarrow> r / (1 - gamma a)"
    by (rule self_loop_limit[OF p])
next
  assume h: "0 < alpha a \<and> alpha a \<le> 1
       \<and> np_index2 (q_table a) s act = Inr v \<and> py_index (q_table a) s' = Inr row \<and> row \<noteq> []
       \<and> norm_index (length (q_table a)) s' \<noteq> norm_index (length (q_table a)) s"
  then have p: "0 < alpha a" "alpha a \<le> 1"
    "np_index2 (q_table a) s act = Inr v" "py_index (q_table a) s' = Inr row" "row \<noteq> []"
    "norm_index (length (q_table a)) s' \<noteq> norm_index (length (q_table a)) s"
    by blast+
  show "\<exists>f. (\<forall>n. \<exists>a'. learn_all a (replicate n (s, act, r, s')) = Inr a'
                        \<and> np_index2 (q_table a') s act = Inr (f n))
               \<and> f \<longlonglongrightarrow> r + gamma a * Max (set row)"
    by (rule fixed_row_limit[OF p])
qed

theorem bellman_update_and_limits_witness:
  "(\<exists>a'. learn (new_agent QLearningAgent 2 1 0.1 0.9 0.3 0.995 0.01) 0 0 1 1 = Inr a'
        \<and> np_index2 (q_table a') 0 0 = Inr 0.1 \<and> total_updates a' = 1)
   \<and> (\<exists>f. (\<forall>n. \<exists>a'. learn_all (new_agent QLearningAgent 2 1 0.1 0.9 0.3 0.995 0.01)
                        (replicate n (0, 0, 1, 0)) = Inr a'
                    \<and> np_index2 (q_table a') 0 0 = Inr (f n))
           \<and> f \<longlonglongrightarrow> 10)
   \<and> (\<exists>f. (\<forall>n. \<exists>a'. learn_all (new_agent QLearningAgent 2 1 0.1 0.9 0.3 0.995 0.01)
                        (replicate n (0, 0, 1, 1)) = Inr a'
                    \<and> np_index2 (q_table a') 0 0 = Inr (f n))
           \<and> f \<longlonglongrightarrow> 1)"
proof -
  let ?B = "new_agent QLearningAgent 2 1 0.1 0.9 0.3 0.995 0.01"
  note f = two_state_agent_facts two_state_table_reads
  have h1: "np_index2 (q_table ?B) 0 0 = Inr 0 \<and> py_index (q_table ?B) 1 = Inr [0]
      \<and> [0::real] \<noteq> []"
    unfolding f by simp
  have h2: "0 < alpha ?B \<and> alpha ?B \<le> 1 \<and> 0 \<le> gamma ?B \<and> gamma ?B < 1
       \<and> np_index2 (q_table ?B) 0 0 = Inr 0 \<and> py_index (q_table ?B) 0 = Inr [0]
       \<and> (\<forall>x\<in>set [0::real]. x \<le> 0) \<and> 0 \<le> 1 / (1 - gamma ?B)"
    unfolding f by simp
  have h3: "0 < alpha ?B \<and> alpha ?B \<le> 1
       \<and> np_index2 (q_table ?B) 0 0 = Inr 0 \<and> py_index (q_table ?B) 1 = Inr [0]
       \<and> [0::real] \<noteq> []
       \<and> norm_index (length (q_table ?B)) 1 \<noteq> norm_index (length (q_table ?B)) 0"
    unfolding f using f(8) by simp
  have c1: "\<exists>a'. learn ?B 0 0 1 1 = Inr a'
        \<and> np_index2 (q_table a') 0 0 = Inr 0.1 \<and> total_updates a' = 1"
    using bellman_update_and_limits [THEN conjunct1, THEN mp, OF h1, of 1]
    unfolding f by simp
  have c2: "\<exists>f. (\<forall>n. \<exists>a'. learn_all ?B (replicate n (0, 0, 1, 0)) = Inr a'
                    \<and> np_index2 (q_table a') 0 0 = Inr (f n))
           \<and> f \<longlonglongrightarrow> 10"
    using bellman_update_and_limits [THEN conjunct2, THEN conjunct1, THEN mp, OF h2]
    unfolding f by simp
  have c3: "\<exists>f. (\<forall>n. \<exists>a'. learn_all ?B (replicate n (0, 0, 1, 1)) = Inr a'
                    \<and> np_index2 (q_table a') 0 0 = Inr (f n))
           \<and> f \<longlonglongrightarrow> 1"
    using bellman_update_and_limits [THEN conjunct2, THEN conjunct2, THEN mp, OF h3, of 1]
    unfolding f by simp
  from c1 c2 c3 show ?thesis by (intro conjI)
qed

text \<open>
  C8 as stated fails for the agent with two states and one action, a zero table,
  \<open>alpha = 0.1\<close> and \<open>gamma = 0.9\<close>: updating the entry of state 0 with reward 1 and next
  state 1, whose row stays zero, gives the values \<open>1 - 0.9 ^ n\<close>, which converge to 1 and
  not to \<open>1 / (1 - 0.9) = 10\<close>.
\<close>

theorem bellman_limit_counterexample:
  "(\<forall>n. \<exists>a'. learn_all (new_agent QLearningAgent 2 1 0.1 0.9 0.3 0.995 0.01)
                 (replicate n (0, 0, 1, 1)) = Inr a'
             \<and> np_index2 (q_table a') 0 0 = Inr (1 - 0.9 ^ n))
   \<and> (\<lambda>n. 1 - 0.9 ^ n :: real) \<longlonglongrightarrow> 1
   \<and> \<not> (\<lambda>n. 1 - 0.9 ^ n :: real) \<longlonglongrightarrow> 1 / (1 - 0.9)"
proof -
  let ?B = "new_agent QLearningAgent 2 1 0.1 0.9 0.3 0.995 0.01"
  note f = two_state_agent_facts two_state_table_reads
  have it: "\<exists>a'. learn_all ?B (replicate n (0, 0, 1, 1)) = Inr a'
             \<and> np_index2 (q_table a') 0 0 = Inr (1 - 0.9 ^ n)" for n
    using fixed_row_iterate[where a = ?B and s = 0 and act = 0 and v = 0 and s' = 1
        and row = "[0]" and r = 1 and n = n]
    unfolding f using f(8) by simp
  have "(\<lambda>n. 1 + 0.9 ^ n * (- 1) :: real) \<longlonglongrightarrow> 1"
    by (rule geometric_limit) simp_all
  then have lim: "(\<lambda>n. 1 - 0.9 ^ n :: real) \<longlonglongrightarrow> 1" by simp
  have "\<not> (\<lambda>n. 1 - 0.9 ^ n :: real) \<longlonglongrightarrow> 1 / (1 - 0.9)"
  proof
    assume "(\<lambda>n. 1 - 0.9 ^ n :: real) \<longlonglongrightarrow> 1 / (1 - 0.9)"
    from LIMSEQ_unique[OF lim this] show False by simp
  qed
  with it lim show ?thesis by blast
qed

end
